theory Spec2Isabelle
  imports Complex_Main
begin

section \<open>JavaScript values used by \<^verbatim>\<open>src/model/Beacon.ts\<close>\<close>

subsection \<open>Strings\<close>

text \<open>
  A JavaScript string is a sequence of UTF-16 code units, and \<^verbatim>\<open>substr\<close>, \<^verbatim>\<open>parseInt\<close>
  and \<^verbatim>\<open>===\<close> all work on code units. A code unit is modelled by its number; nothing
  below needs the bound \<open>< 65536\<close>, so every JavaScript string is covered.
  \<open>str\<close> turns an ASCII literal into its code units.
\<close>

type_synonym code_unit = nat
type_synonym jsstring = "code_unit list"

definition str :: "string \<Rightarrow> jsstring" where
  "str s = map of_char s"

text \<open>
  \<^verbatim>\<open>String.prototype.substr(start, length)\<close> for the non-negative literal arguments the
  source passes: the code units from \<open>start\<close> up to \<open>min (start + length) size\<close>, the
  empty string when \<open>start\<close> is past the end. It never throws.
\<close>

definition substr :: "jsstring \<Rightarrow> nat \<Rightarrow> nat \<Rightarrow> jsstring" where
  "substr s start len = take len (drop start s)"

subsection \<open>Numbers\<close>

text \<open>
  A Number is \<open>NaN\<close>, an infinity or a finite binary64 value. A finite value is
  modelled by the real number it denotes; the two zeros are one value, as \<^verbatim>\<open>===\<close>, \<^verbatim>\<open><\<close>
  and every operation used here treat them alike.
\<close>

datatype jsnum = NaN | PosInf | NegInf | Fin real

text \<open>
  The result of an arithmetic operation is the exact result rounded to binary64, as
  IEEE 754 prescribes: to the nearest representable value, to the one with an even
  significand when two are equally near, to an infinity when the rounded value reaches
  \<open>2 ^ 1024\<close>. Representable values are the integer multiples of the quantum of their
  binade: \<open>2 powr (e - 52)\<close> for \<open>2 powr e \<le> \<bar>x\<bar> < 2 powr (e + 1)\<close>, and \<open>2 powr (- 1074)\<close>
  below \<open>2 powr (- 1022)\<close>, where the subnormal values are.
\<close>

definition round_half_even :: "real \<Rightarrow> int" where
  "round_half_even m =
     (let f = \<lfloor>m\<rfloor>; d = m - of_int f
      in if d < 1 / 2 then f
         else if 1 / 2 < d then f + 1
         else if even f then f else f + 1)"

definition exponent :: "real \<Rightarrow> int" where
  "exponent x = max \<lfloor>log 2 \<bar>x\<bar>\<rfloor> (- 1022)"

definition quantum :: "real \<Rightarrow> real" where
  "quantum x = 2 powr of_int (exponent x - 52)"

definition round_to_quantum :: "real \<Rightarrow> real \<Rightarrow> real" where
  "round_to_quantum q x = of_int (round_half_even (x / q)) * q"

definition binary64_limit :: real where
  "binary64_limit = 2 ^ 1024"

definition overflow :: "real \<Rightarrow> jsnum" where
  "overflow y =
     (if binary64_limit \<le> y then PosInf
      else if y \<le> - binary64_limit then NegInf
      else Fin y)"

definition round_binary64 :: "real \<Rightarrow> jsnum" where
  "round_binary64 x = overflow (round_to_quantum (quantum x) x)"

text \<open>The binary \<^verbatim>\<open>-\<close> operator.\<close>

fun js_sub :: "jsnum \<Rightarrow> jsnum \<Rightarrow> jsnum" where
  "js_sub NaN y = NaN"
| "js_sub x NaN = NaN"
| "js_sub PosInf PosInf = NaN"
| "js_sub NegInf NegInf = NaN"
| "js_sub PosInf y = PosInf"
| "js_sub NegInf y = NegInf"
| "js_sub (Fin x) PosInf = NegInf"
| "js_sub (Fin x) NegInf = PosInf"
| "js_sub (Fin x) (Fin y) = round_binary64 (x - y)"

text \<open>
  \<^verbatim>\<open>x * c\<close> and \<^verbatim>\<open>x / c\<close> for a strictly positive finite \<open>c\<close>: the source multiplies
  by the literal 10 and divides by the literals \<^verbatim>\<open>10 * 2\<close> and 10 only, which binary64
  holds exactly.
\<close>

fun js_mul_pos :: "jsnum \<Rightarrow> real \<Rightarrow> jsnum" where
  "js_mul_pos NaN c = NaN"
| "js_mul_pos PosInf c = PosInf"
| "js_mul_pos NegInf c = NegInf"
| "js_mul_pos (Fin x) c = round_binary64 (x * c)"

fun js_div_pos :: "jsnum \<Rightarrow> real \<Rightarrow> jsnum" where
  "js_div_pos NaN c = NaN"
| "js_div_pos PosInf c = PosInf"
| "js_div_pos NegInf c = NegInf"
| "js_div_pos (Fin x) c = round_binary64 (x / c)"

text \<open>The \<^verbatim>\<open><\<close> operator on Numbers: false as soon as one side is \<open>NaN\<close>.\<close>

fun js_lt :: "jsnum \<Rightarrow> jsnum \<Rightarrow> bool" where
  "js_lt NaN y = False"
| "js_lt x NaN = False"
| "js_lt PosInf y = False"
| "js_lt x NegInf = False"
| "js_lt NegInf y = True"
| "js_lt (Fin x) PosInf = True"
| "js_lt (Fin x) (Fin y) = (x < y)"

text \<open>The \<^verbatim>\<open>===\<close> operator on Numbers: \<open>NaN\<close> is not equal to anything, itself included.\<close>

definition js_strict_eq :: "jsnum \<Rightarrow> jsnum \<Rightarrow> bool" where
  "js_strict_eq x y = (x \<noteq> NaN \<and> y \<noteq> NaN \<and> x = y)"

text \<open>
  \<^verbatim>\<open>Math.round\<close>: the closest integer, the one towards \<open>+\<infinity>\<close> when two are equally
  close. The result is exact: an integer next to a binary64 value is a binary64 value.
\<close>

fun Math_round :: "jsnum \<Rightarrow> jsnum" where
  "Math_round NaN = NaN"
| "Math_round PosInf = PosInf"
| "Math_round NegInf = NegInf"
| "Math_round (Fin x) = Fin (of_int \<lfloor>x + 1 / 2\<rfloor>)"

text \<open>
  \<^verbatim>\<open>Math.pow(10, y)\<close>, the only way the source calls \<^verbatim>\<open>Math.pow\<close>. ECMAScript leaves the
  finite case to the implementation, as an approximation of the power; the model takes
  the binary64 value nearest to it, with overflow to \<open>+\<infinity>\<close> and underflow to 0.
\<close>

fun Math_pow_10 :: "jsnum \<Rightarrow> jsnum" where
  "Math_pow_10 NaN = NaN"
| "Math_pow_10 PosInf = PosInf"
| "Math_pow_10 NegInf = Fin 0"
| "Math_pow_10 (Fin y) = round_binary64 (10 powr y)"

subsection \<open>\<^verbatim>\<open>parseInt\<close> and \<^verbatim>\<open>Number.prototype.toString\<close>\<close>

text \<open>
  \<^verbatim>\<open>parseInt\<close> returns \<open>NaN\<close> or an integral Number; the type \<open>parsed\<close> records that,
  and \<open>num\<close> reads a \<open>parsed\<close> value as a Number.
\<close>

datatype parsed = PNaN | PInt int

fun num :: "parsed \<Rightarrow> jsnum" where
  "num PNaN = NaN"
| "num (PInt k) = Fin (of_int k)"

text \<open>White space and line terminators of ECMAScript, as \<^verbatim>\<open>parseInt\<close> skips them.\<close>

definition is_white_space :: "code_unit \<Rightarrow> bool" where
  "is_white_space c =
     (c \<in> set [9, 10, 11, 12, 13, 32, 160, 5760, 8232, 8233, 8239, 8287, 12288, 65279]
      \<or> (8192 \<le> c \<and> c \<le> 8202))"

text \<open>
  The value of a code unit as a digit: \<open>0-9\<close>, then \<open>a-z\<close> or \<open>A-Z\<close> for 10 to 35.
  Any other code unit gets 36, which is a digit in no radix.
\<close>

definition digit_val :: "code_unit \<Rightarrow> nat" where
  "digit_val c =
     (if 48 \<le> c \<and> c \<le> 57 then c - 48
      else if 97 \<le> c \<and> c \<le> 122 then c - 87
      else if 65 \<le> c \<and> c \<le> 90 then c - 55
      else 36)"

definition radix_value :: "nat \<Rightarrow> jsstring \<Rightarrow> nat" where
  "radix_value R Z = foldl (\<lambda>a c. a * R + digit_val c) 0 Z"

text \<open>
  \<^verbatim>\<open>parseInt(string, radix)\<close>, following the steps of ECMAScript: trim leading white
  space, read a sign, reject a radix outside 2..36, strip a \<^verbatim>\<open>0x\<close> or \<^verbatim>\<open>0X\<close> prefix when
  the radix is 16 (or absent), keep the longest prefix of digits of the radix, and return
  \<open>NaN\<close> when that prefix is empty.
\<close>

definition parseInt :: "jsstring \<Rightarrow> nat \<Rightarrow> parsed" where
  "parseInt string radix =
     (let S = dropWhile is_white_space string;
          sign = (if S \<noteq> [] \<and> hd S = 45 then - 1 else 1);
          S1 = (if S \<noteq> [] \<and> (hd S = 43 \<or> hd S = 45) then tl S else S);
          R = (if radix = 0 then 10 else radix);
          stripPrefix = (radix = 0 \<or> radix = 16)
      in if R < 2 \<or> 36 < R then PNaN
         else
           let hasPrefix = (stripPrefix \<and> (take 2 S1 = [48, 120] \<or> take 2 S1 = [48, 88]));
               S2 = (if hasPrefix then drop 2 S1 else S1);
               R2 = (if hasPrefix then 16 else R);
               Z = takeWhile (\<lambda>c. digit_val c < R2) S2
           in if Z = [] then PNaN else PInt (sign * int (radix_value R2 Z)))"

text \<open>The digit \<open>d < 36\<close> as a code unit: \<open>0-9\<close>, then lower case \<open>a-z\<close>.\<close>

definition digit_char :: "nat \<Rightarrow> code_unit" where
  "digit_char d = (if d < 10 then 48 + d else 87 + d)"

text \<open>The digits of \<open>n\<close> in radix \<open>R\<close>, most significant first, with no leading zero.\<close>

function digits :: "nat \<Rightarrow> nat \<Rightarrow> jsstring" where
  "digits R n =
     (if R < 2 \<or> n < R then [digit_char n]
      else digits R (n div R) @ [digit_char (n mod R)])"
  by pat_completeness auto
termination
  by (relation "measure (\<lambda>(R, n). n)") auto

declare digits.simps [simp del]

text \<open>
  \<^verbatim>\<open>Number.prototype.toString(radix)\<close> on the result of \<^verbatim>\<open>parseInt\<close>, for a radix in
  2..36 (the source passes 36; the method throws on any other radix).
\<close>

fun Number_toString :: "parsed \<Rightarrow> nat \<Rightarrow> jsstring" where
  "Number_toString PNaN radix = str ''NaN''"
| "Number_toString (PInt k) radix =
     (if k < 0 then 45 # digits radix (nat (- k)) else digits radix (nat k))"

section \<open>The Beacon class\<close>

definition PROXIMITY_IMMEDIATE :: jsstring where
  "PROXIMITY_IMMEDIATE = str ''immediate''"

definition PROXIMITY_NEAR :: jsstring where
  "PROXIMITY_NEAR = str ''near''"

definition PROXIMITY_FAR :: jsstring where
  "PROXIMITY_FAR = str ''far''"

definition PROXIMITY_UNKNOWN :: jsstring where
  "PROXIMITY_UNKNOWN = str ''unknown''"

record Beacon =
  distance :: jsnum
  joinCode :: jsstring
  lastSeen :: int
  proximity :: jsstring
  uuid :: jsstring

text \<open>
  The constructor. \<^verbatim>\<open>Date.now()\<close> is the one read of the outside world; its result is
  the argument \<open>now\<close>.
\<close>

definition new_Beacon :: "jsstring \<Rightarrow> jsstring \<Rightarrow> jsnum \<Rightarrow> jsstring \<Rightarrow> int \<Rightarrow> Beacon" where
  "new_Beacon u j d p now =
     \<lparr>distance = d, joinCode = j, lastSeen = now, proximity = p, uuid = u\<rparr>"

definition getRoundedDistance :: "Beacon \<Rightarrow> jsnum" where
  "getRoundedDistance this = js_div_pos (Math_round (js_mul_pos (distance this) 10)) 10"

text \<open>
  The argument of \<^verbatim>\<open>isEqual\<close> may be absent, and \<^verbatim>\<open>b && e\<close> evaluates to \<open>b\<close> itself when
  \<open>b\<close> is \<^verbatim>\<open>null\<close> or \<^verbatim>\<open>undefined\<close>: the result of \<^verbatim>\<open>isEqual\<close> is a value that need not be a
  boolean.
\<close>

datatype 'a reference = Null | Undefined | Obj 'a

datatype jsvalue = VNull | VUndefined | VBool bool

fun isEqual :: "Beacon \<Rightarrow> Beacon reference \<Rightarrow> jsvalue" where
  "isEqual this Null = VNull"
| "isEqual this Undefined = VUndefined"
| "isEqual this (Obj b) =
     VBool (uuid b = uuid this
       \<and> joinCode b = joinCode this
       \<and> js_strict_eq (getRoundedDistance b) (getRoundedDistance this))"

text \<open>
  \<^verbatim>\<open>Beacon.parse\<close>. Its declared result is \<^verbatim>\<open>Beacon | null\<close>: \<open>None\<close> stands for
  \<^verbatim>\<open>null\<close>. No step of it can throw: \<^verbatim>\<open>substr\<close>, \<^verbatim>\<open>parseInt\<close>, \<^verbatim>\<open>toString(36)\<close>, the
  arithmetic and \<^verbatim>\<open>Math.pow\<close> are defined on every argument they get here.
\<close>

definition parse :: "jsstring \<Rightarrow> jsnum \<Rightarrow> int \<Rightarrow> Beacon option" where
  "parse dataString rssi now =
     (let uuid' = substr dataString 0 8 @ str ''-'' @ substr dataString 8 4 @ str ''-''
            @ substr dataString 12 4 @ str ''-'' @ substr dataString 16 4 @ str ''-''
            @ substr dataString 20 12;
          major = substr dataString 32 4;
          minor = substr dataString 36 4;
          joinCode' = Number_toString (parseInt (major @ minor) 16) 36;
          power = js_sub (num (parseInt (substr dataString 40 2) 16)) (Fin 256);
          distance' = Math_pow_10 (js_div_pos (js_sub power rssi) (10 * 2));
          proximity' =
            (if js_lt distance' (Fin 1) then PROXIMITY_IMMEDIATE
             else if js_lt distance' (Fin 3) then PROXIMITY_NEAR
             else PROXIMITY_FAR)
      in Some (new_Beacon uuid' joinCode' distance' proximity' now))"

section \<open>Definitions that follow the specification's words\<close>

text \<open>
  The identity as the specification describes it: 32 characters taken at an offset of the
  payload, split into groups of 8, 4, 4, 4 and 12 characters and joined with dashes.
\<close>

fun split_groups :: "nat list \<Rightarrow> jsstring \<Rightarrow> jsstring list" where
  "split_groups [] s = []"
| "split_groups (w # ws) s = take w s # split_groups ws (drop w s)"

fun dash_join :: "jsstring list \<Rightarrow> jsstring" where
  "dash_join [] = []"
| "dash_join [g] = g"
| "dash_join (g # gs) = g @ 45 # dash_join gs"

definition spec_identity :: "nat \<Rightarrow> jsstring \<Rightarrow> jsstring" where
  "spec_identity offset payload =
     dash_join (split_groups [8, 4, 4, 4, 12] (substr payload offset 32))"

text \<open>\<^verbatim>\<open>String.prototype.padStart(n, c)\<close> with a single code unit \<open>c\<close>.\<close>

definition padStart :: "jsstring \<Rightarrow> nat \<Rightarrow> code_unit \<Rightarrow> jsstring" where
  "padStart s n c = replicate (n - length s) c @ s"

text \<open>
  Modelled from the spec: the encoder of join codes, which is not part of the source
  (only the decoder \<open>parse\<close> is). The specification's words are: parse the application
  code \<open>S\<close> as base-36, render the value as zero-padded base-16, split across the major
  and the minor field, each 4 hexadecimal characters wide.
\<close>

definition spec_encode_joinCode :: "jsstring \<Rightarrow> jsstring \<times> jsstring" where
  "spec_encode_joinCode S =
     (let h = padStart (Number_toString (parseInt S 36) 16) 8 48
      in (substr h 0 4, substr h 4 4))"

text \<open>
  The payload the encoder produces: 32 characters of identity, the two encoded fields and
  the power byte, at the offsets the source reads.
\<close>

definition spec_joinCode_payload :: "jsstring \<Rightarrow> jsstring \<Rightarrow> jsstring \<Rightarrow> jsstring" where
  "spec_joinCode_payload identity S powerByte =
     (case spec_encode_joinCode S of (major, minor) \<Rightarrow> identity @ major @ minor @ powerByte)"

text \<open>
  Two example payloads. \<open>example_payload\<close> follows the layout the source reads: the
  identity first, then major \<^verbatim>\<open>0003\<close>, minor \<^verbatim>\<open>0007\<close> and the power byte \<^verbatim>\<open>C6\<close>.
  \<open>spec_example_payload\<close> is the end-to-end example as the specification writes it,
  with the manufacturer bytes in front and eight characters for each of major and minor.
\<close>

definition example_payload :: jsstring where
  "example_payload = str ''1234567890ABCDEF1234567890ABCDEF00030007C6''"

definition spec_example_payload :: jsstring where
  "spec_example_payload =
     str ''AABBCCDD1234567890ABCDEF1234567890ABCDEF0000000300000007C6''"

text \<open>
  A base-36 text as \<^verbatim>\<open>toString(36)\<close> writes it: not empty, digits \<open>0-9\<close> and lower case
  \<open>a-z\<close> only, and no leading zero except for the text \<^verbatim>\<open>0\<close> itself.
\<close>

definition canonical_base36 :: "jsstring \<Rightarrow> bool" where
  "canonical_base36 S =
     (S \<noteq> []
      \<and> list_all (\<lambda>c. (48 \<le> c \<and> c \<le> 57) \<or> (97 \<le> c \<and> c \<le> 122)) S
      \<and> (length S = 1 \<or> hd S \<noteq> 48))"


section \<open>Properties\<close>

subsection \<open>Rounding to binary64\<close>

lemma round_half_even_int: "round_half_even (of_int n) = n"
  by (simp add: round_half_even_def)

lemma round_half_even_error: "\<bar>of_int (round_half_even m) - m\<bar> \<le> 1 / 2"
  unfolding round_half_even_def Let_def by (auto simp: abs_le_iff)

lemma round_half_even_small: "\<bar>m\<bar> < 1 / 2 \<Longrightarrow> round_half_even m = 0"
proof -
  assume a: "\<bar>m\<bar> < 1 / 2"
  have "\<bar>of_int (round_half_even m) :: real\<bar> < 1"
    using round_half_even_error [of m] a by linarith
  then show ?thesis by linarith
qed

lemma floor_log_bounds:
  assumes "x \<noteq> 0"
  shows "2 powr of_int \<lfloor>log 2 \<bar>x\<bar>\<rfloor> \<le> \<bar>x\<bar>" and "\<bar>x\<bar> < 2 powr of_int (\<lfloor>log 2 \<bar>x\<bar>\<rfloor> + 1)"
proof -
  have p: "0 < \<bar>x\<bar>" using assms by simp
  show "2 powr of_int \<lfloor>log 2 \<bar>x\<bar>\<rfloor> \<le> \<bar>x\<bar>"
    using le_log_iff [of 2 "\<bar>x\<bar>" "of_int \<lfloor>log 2 \<bar>x\<bar>\<rfloor>"] p by simp
  have "log 2 \<bar>x\<bar> < of_int (\<lfloor>log 2 \<bar>x\<bar>\<rfloor> + 1)" by linarith
  then show "\<bar>x\<bar> < 2 powr of_int (\<lfloor>log 2 \<bar>x\<bar>\<rfloor> + 1)"
    using log_less_iff [of 2 "\<bar>x\<bar>" "of_int (\<lfloor>log 2 \<bar>x\<bar>\<rfloor> + 1)"] p by simp
qed

lemma floor_log_unique:
  assumes "2 powr of_int e \<le> \<bar>x\<bar>" and "\<bar>x\<bar> < 2 powr of_int (e + 1)"
  shows "\<lfloor>log 2 \<bar>x\<bar>\<rfloor> = e"
proof -
  have "0 < (2::real) powr of_int e" by simp
  with assms(1) have p: "0 < \<bar>x\<bar>" by linarith
  have "of_int e \<le> log 2 \<bar>x\<bar>" using assms(1) p by (simp add: le_log_iff)
  moreover have "log 2 \<bar>x\<bar> < of_int e + 1" using assms(2) p by (simp add: log_less_iff)
  ultimately show ?thesis by linarith
qed


lemma quantum_pos: "0 < quantum x"
  by (simp add: quantum_def)

lemma quantum_normal:
  assumes "- 1022 \<le> e" and "2 powr of_int e \<le> \<bar>x\<bar>" and "\<bar>x\<bar> < 2 powr of_int (e + 1)"
  shows "quantum x = 2 powr of_int (e - 52)"
  using floor_log_unique [OF assms(2,3)] assms(1) by (simp add: quantum_def exponent_def)

lemma quantum_subnormal:
  assumes "x \<noteq> 0" and "\<bar>x\<bar> < 2 powr (- 1022)"
  shows "quantum x = 2 powr (- 1074)"
proof -
  have "log 2 \<bar>x\<bar> < - 1022"
    using log_less_iff [of 2 "\<bar>x\<bar>" "- 1022"] assms by simp
  then have "\<lfloor>log 2 \<bar>x\<bar>\<rfloor> \<le> - 1022" by linarith
  then show ?thesis by (simp add: quantum_def exponent_def)
qed

lemma overflow_Fin: "\<bar>y\<bar> < binary64_limit \<Longrightarrow> overflow y = Fin y"
  unfolding overflow_def by (auto simp: abs_less_iff)

lemma round_binary64_0: "round_binary64 0 = Fin 0"
  by (simp add: round_binary64_def round_to_quantum_def round_half_even_int [of 0, simplified]
      overflow_def binary64_limit_def)

lemma round_to_quantum_error:
  assumes "0 < q"
  shows "\<bar>round_to_quantum q x - x\<bar> \<le> q / 2"
proof -
  let ?d = "of_int (round_half_even (x / q)) - x / q"
  have "\<bar>?d\<bar> \<le> 1 / 2"
    by (rule round_half_even_error)
  then have "\<bar>?d\<bar> * q \<le> 1 / 2 * q"
    using assms by (intro mult_right_mono) simp_all
  moreover have "?d * q = round_to_quantum q x - x"
    using assms by (simp add: round_to_quantum_def left_diff_distrib)
  then have "\<bar>round_to_quantum q x - x\<bar> = \<bar>?d\<bar> * \<bar>q\<bar>"
    by (simp only: abs_mult [symmetric])
  ultimately show ?thesis
    using assms by simp
qed

lemma round_binary64_error:
  assumes lo: "2 powr (- 1022) \<le> \<bar>x\<bar>" and hi: "\<bar>x\<bar> \<le> binary64_limit / 2"
  shows "\<exists>y. round_binary64 x = Fin y \<and> \<bar>y - x\<bar> \<le> \<bar>x\<bar> / 2 ^ 53"
proof -
  have "0 < (2::real) powr (- 1022)" by simp
  with lo have x0: "x \<noteq> 0" by auto
  define e where "e = \<lfloor>log 2 \<bar>x\<bar>\<rfloor>"
  have eb: "2 powr of_int e \<le> \<bar>x\<bar>" "\<bar>x\<bar> < 2 powr of_int (e + 1)"
    using floor_log_bounds [OF x0] by (simp_all add: e_def)
  have "- 1022 \<le> log 2 \<bar>x\<bar>"
    using le_log_iff [of 2 "\<bar>x\<bar>" "- 1022"] lo x0 by simp
  then have e1: "- 1022 \<le> e" unfolding e_def by linarith
  have q: "quantum x = 2 powr of_int (e - 52)" using e1 eb by (rule quantum_normal)
  define y where "y = round_to_quantum (quantum x) x"
  have err: "\<bar>y - x\<bar> \<le> quantum x / 2"
    unfolding y_def using quantum_pos by (rule round_to_quantum_error)
  have "quantum x = 2 powr of_int e / 2 ^ 52"
    by (simp add: q powr_diff)
  then have "quantum x / 2 = 2 powr of_int e / 2 ^ 53" by simp
  also have "\<dots> \<le> \<bar>x\<bar> / 2 ^ 53" using eb(1) by (simp add: divide_right_mono)
  finally have rel: "\<bar>y - x\<bar> \<le> \<bar>x\<bar> / 2 ^ 53" using err by linarith
  have "\<bar>x\<bar> / 2 ^ 53 < \<bar>x\<bar>" using x0 by simp
  with rel have "\<bar>y\<bar> < 2 * \<bar>x\<bar>" by linarith
  with hi have "\<bar>y\<bar> < binary64_limit" by linarith
  then have "round_binary64 x = Fin y"
    unfolding round_binary64_def y_def [symmetric] by (rule overflow_Fin)
  with rel show ?thesis by blast
qed

lemma round_binary64_exact:
  assumes x: "x = of_int n * 2 powr of_int k" and n: "\<bar>n\<bar> < 2 ^ 53"
    and k: "- 1074 \<le> k" and b: "\<bar>x\<bar> < binary64_limit"
  shows "round_binary64 x = Fin x"
proof (cases "x = 0")
  case True
  then show ?thesis by (simp add: round_binary64_0)
next
  case False
  define e where "e = exponent x"
  have "\<bar>x\<bar> = of_int \<bar>n\<bar> * 2 powr of_int k" by (simp add: x abs_mult)
  also have "\<dots> < 2 ^ 53 * 2 powr of_int k"
  proof (rule mult_strict_right_mono)
    have "real_of_int \<bar>n\<bar> < real_of_int (2 ^ 53)" using n by (simp only: of_int_less_iff)
    then show "real_of_int \<bar>n\<bar> < 2 ^ 53" by simp
  qed simp
  also have "\<dots> = 2 powr of_int (53 + k)" by (simp add: powr_add)
  finally have "\<bar>x\<bar> < 2 powr of_int (53 + k)" .
  then have "log 2 \<bar>x\<bar> < of_int (53 + k)"
    using log_less_iff [of 2 "\<bar>x\<bar>" "of_int (53 + k)"] False by simp
  then have "\<lfloor>log 2 \<bar>x\<bar>\<rfloor> \<le> 52 + k" by linarith
  then have ek: "e \<le> 52 + k" using k by (simp add: e_def exponent_def)
  define j where "j = nat (k + 52 - e)"
  define q :: real where "q = quantum x"
  have q0: "0 < q" unfolding q_def by (rule quantum_pos)
  have qe: "q = 2 powr of_int (e - 52)" by (simp add: q_def quantum_def e_def)
  have "of_int k = of_int (int j) + real_of_int (e - 52)"
    using ek by (simp add: j_def)
  then have "2 powr of_int k = 2 powr of_int (int j) * q"
    unfolding qe by (simp only: powr_add)
  also have "(2::real) powr of_int (int j) = 2 ^ j" by (simp add: powr_realpow)
  finally have kq: "2 powr of_int k = 2 ^ j * q" .
  have "x / q = of_int (n * 2 ^ j)"
    using q0 by (simp add: x kq)
  then have "round_half_even (x / q) = n * 2 ^ j"
    by (simp only: round_half_even_int)
  then have "round_to_quantum q x = x"
    by (simp add: round_to_quantum_def x kq)
  then show ?thesis
    unfolding round_binary64_def q_def [symmetric] using b by (simp add: overflow_Fin)
qed

lemma round_binary64_int:
  assumes "\<bar>n\<bar> < 2 ^ 53"
  shows "round_binary64 (of_int n) = Fin (of_int n)"
proof (rule round_binary64_exact [where n = n and k = 0])
  have "real_of_int \<bar>n\<bar> < real_of_int (2 ^ 53)" using assms by (simp only: of_int_less_iff)
  then have "\<bar>real_of_int n\<bar> < 2 ^ 53" by simp
  also have "\<dots> < binary64_limit" by (simp add: binary64_limit_def)
  finally show "\<bar>real_of_int n\<bar> < binary64_limit" .
qed (use assms in simp_all)

lemma round_binary64_underflow:
  assumes "\<bar>x\<bar> < 1 / 2 ^ 1075"
  shows "round_binary64 x = Fin 0"
proof (cases "x = 0")
  case True
  then show ?thesis by (simp add: round_binary64_0)
next
  case False
  have "(1::real) / 2 ^ 1075 < 2 powr (- 1022)" by (simp add: powr_minus_divide)
  with assms have "\<bar>x\<bar> < 2 powr (- 1022)" by linarith
  with False have q: "quantum x = 2 powr (- 1074)" by (rule quantum_subnormal)
  have q': "(2::real) powr (- 1074) = 1 / 2 ^ 1074"
    by (simp add: powr_minus_divide)
  have "\<bar>x / (1 / 2 ^ 1074)\<bar> = \<bar>x\<bar> * 2 ^ 1074" by (simp add: abs_mult)
  also have "\<dots> < 1 / 2 ^ 1075 * 2 ^ 1074"
    using assms by (intro mult_strict_right_mono) simp_all
  also have "\<dots> = (1::real) / 2" by simp
  finally have "round_half_even (x / (1 / 2 ^ 1074)) = 0"
    by (rule round_half_even_small)
  then have "round_to_quantum (quantum x) x = 0"
    unfolding q q' by (simp add: round_to_quantum_def)
  then show ?thesis
    unfolding round_binary64_def by (simp add: overflow_def binary64_limit_def)
qed

subsection \<open>Accuracy of the distance\<close>

lemma js_sub_int:
  assumes "\<bar>a - b\<bar> < 2 ^ 53"
  shows "js_sub (Fin (of_int a)) (Fin (of_int b)) = Fin (of_int (a - b))"
  using round_binary64_int [OF assms] by simp

lemma ln10_bounds: "2 \<le> ln (10::real)" "ln (10::real) \<le> 9"
proof -
  have "exp (2::real) = exp 1 * exp 1" by (simp flip: exp_add)
  also have "\<dots> \<le> 3 * 3" using exp_le by (intro mult_mono) simp_all
  finally have "exp (2::real) \<le> 10" by simp
  then have "ln (exp (2::real)) \<le> ln 10" by (subst ln_le_cancel_iff) simp_all
  then show "2 \<le> ln (10::real)" by simp
  show "ln (10::real) \<le> 9" using ln_le_minus_one [of "10::real"] by simp
qed

lemma ten_powr_small:
  assumes "\<bar>h::real\<bar> \<le> 300 / 2 ^ 53"
  shows "\<bar>10 powr h - 1\<bar> \<le> 5400 / 2 ^ 53"
proof -
  define t where "t = h * ln (10::real)"
  have e: "10 powr h = exp t" by (simp add: powr_def t_def)
  have "\<bar>t\<bar> = \<bar>h\<bar> * ln 10" using ln10_bounds(1) by (simp add: t_def abs_mult)
  also have "\<dots> \<le> 300 / 2 ^ 53 * 9"
    using assms ln10_bounds by (intro mult_mono) simp_all
  finally have t: "\<bar>t\<bar> \<le> 2700 / 2 ^ 53" by simp
  have lo: "1 + t \<le> exp t" by simp
  have "1 - t \<le> exp (- t)" by (rule exp_minus_ge)
  moreover have "0 < 1 - t" using t by simp
  ultimately have "exp t \<le> 1 / (1 - t)"
    by (simp add: exp_minus field_simps)
  also have "\<dots> \<le> 1 + 2 * \<bar>t\<bar>"
  proof -
    have "1 \<le> (1 + 2 * \<bar>t\<bar>) * (1 - t)"
    proof -
      have "(1 + 2 * \<bar>t\<bar>) * (1 - t) = 1 + (2 * \<bar>t\<bar> - t) - 2 * \<bar>t\<bar> * t" by (simp add: algebra_simps)
      moreover have "2 * \<bar>t\<bar> * t \<le> 2 * \<bar>t\<bar> * (1 / 2)"
        using t by (intro mult_left_mono) simp_all
      ultimately show ?thesis by (simp add: abs_if split: if_splits)
    qed
    then show ?thesis using \<open>0 < 1 - t\<close> by (simp add: field_simps)
  qed
  finally have hi: "exp t \<le> 1 + 2 * \<bar>t\<bar>" .
  define c :: real where "c = 2700 / 2 ^ 53"
  have "5400 / 2 ^ 53 = 2 * c" by (simp add: c_def)
  moreover have "\<bar>t\<bar> \<le> c" using t by (simp add: c_def)
  ultimately show ?thesis unfolding e using lo hi by linarith
qed

lemma Math_pow_10_error:
  assumes "\<bar>y\<bar> \<le> 301"
  shows "\<exists>d. Math_pow_10 (Fin y) = Fin d \<and> \<bar>d - 10 powr y\<bar> \<le> 10 powr y / 2 ^ 53"
proof -
  have "(10::real) powr (- 301) \<le> 10 powr y" using assms by (intro powr_mono) simp_all
  moreover have "(2::real) powr (- 1022) \<le> 10 powr (- 301)"
    by (simp add: powr_minus_divide)
  ultimately have "(2::real) powr (- 1022) \<le> 10 powr y" by (rule order_trans [rotated])
  then have lo: "2 powr (- 1022) \<le> \<bar>10 powr y\<bar>" by simp
  have "(10::real) powr y \<le> 10 powr 301" using assms by (intro powr_mono) simp_all
  also have "\<dots> \<le> binary64_limit / 2" by (simp add: binary64_limit_def)
  finally have hi: "\<bar>10 powr y\<bar> \<le> binary64_limit / 2" by simp
  show ?thesis using round_binary64_error [OF lo hi] by simp
qed

lemma js_div_20_error:
  assumes "\<bar>n\<bar> \<le> 6000"
  shows "\<exists>y. js_div_pos (Fin (of_int n)) (10 * 2) = Fin y \<and> \<bar>y - of_int n / 20\<bar> \<le> 300 / 2 ^ 53"
proof (cases "n = 0")
  case True
  then show ?thesis by (simp add: round_binary64_0)
next
  case False
  let ?x = "real_of_int n / 20"
  have "1 \<le> \<bar>n\<bar>" using False by simp
  then have "1 \<le> \<bar>real_of_int n\<bar>" by (simp flip: of_int_abs)
  then have "1 / 20 \<le> \<bar>?x\<bar>" by simp
  moreover have "(2::real) powr (- 1022) \<le> 1 / 20" by (simp add: powr_minus_divide)
  ultimately have lo: "2 powr (- 1022) \<le> \<bar>?x\<bar>" by linarith
  have "\<bar>real_of_int n\<bar> \<le> 6000" using assms by (simp flip: of_int_abs)
  then have b: "\<bar>?x\<bar> \<le> 300" by simp
  also have "\<dots> \<le> binary64_limit / 2" by (simp add: binary64_limit_def)
  finally have hi: "\<bar>?x\<bar> \<le> binary64_limit / 2" .
  obtain y where y: "round_binary64 ?x = Fin y" "\<bar>y - ?x\<bar> \<le> \<bar>?x\<bar> / 2 ^ 53"
    using round_binary64_error [OF lo hi] by blast
  have "\<bar>?x\<bar> / 2 ^ 53 \<le> 300 / 2 ^ 53" using b by (intro divide_right_mono) simp_all
  with y show ?thesis by auto
qed

lemma distance_accuracy:
  assumes "\<bar>n\<bar> \<le> 6000"
  shows "\<exists>d. Math_pow_10 (js_div_pos (Fin (of_int n)) (10 * 2)) = Fin d
    \<and> \<bar>d - 10 powr (of_int n / 20)\<bar> \<le> 10 powr (of_int n / 20) / 10 ^ 12"
proof -
  let ?x = "real_of_int n / 20"
  let ?X = "(10::real) powr ?x"
  obtain y where y: "js_div_pos (Fin (of_int n)) (10 * 2) = Fin y" "\<bar>y - ?x\<bar> \<le> 300 / 2 ^ 53"
    using js_div_20_error [OF assms] by blast
  have "\<bar>real_of_int n\<bar> \<le> 6000" using assms by (simp flip: of_int_abs)
  then have "\<bar>?x\<bar> \<le> 300" by simp
  moreover have "300 / 2 ^ 53 \<le> (1::real)" by simp
  ultimately have "\<bar>y\<bar> \<le> 301" using y(2) by linarith
  then obtain d where d: "Math_pow_10 (Fin y) = Fin d" "\<bar>d - 10 powr y\<bar> \<le> 10 powr y / 2 ^ 53"
    using Math_pow_10_error by blast
  have X0: "0 < ?X" by simp
  have "10 powr y = ?X * 10 powr (y - ?x)" by (simp flip: powr_add)
  moreover have s: "\<bar>10 powr (y - ?x) - 1\<bar> \<le> 5400 / 2 ^ 53"
    using y(2) by (rule ten_powr_small)
  ultimately have "10 powr y - ?X = ?X * (10 powr (y - ?x) - 1)"
    by (simp add: right_diff_distrib)
  then have "\<bar>10 powr y - ?X\<bar> = \<bar>?X\<bar> * \<bar>10 powr (y - ?x) - 1\<bar>"
    by (simp only: abs_mult)
  then have "\<bar>10 powr y - ?X\<bar> = ?X * \<bar>10 powr (y - ?x) - 1\<bar>"
    by simp
  also have "\<dots> \<le> ?X * (5400 / 2 ^ 53)" using s X0 by (intro mult_left_mono) simp_all
  finally have a: "\<bar>10 powr y - ?X\<bar> \<le> ?X * (5400 / 2 ^ 53)" .
  define c :: real where "c = 5400 / 2 ^ 53"
  define u :: real where "u = 1 / 2 ^ 53"
  have u0: "0 \<le> u" by (simp add: u_def)
  have a': "\<bar>10 powr y - ?X\<bar> \<le> ?X * c" using a by (simp add: c_def)
  then have "10 powr y \<le> ?X + ?X * c" by linarith
  then have "10 powr y * u \<le> (?X + ?X * c) * u" using u0 by (rule mult_right_mono)
  moreover have "\<bar>d - 10 powr y\<bar> \<le> 10 powr y * u" using d(2) by (simp add: u_def)
  ultimately have b: "\<bar>d - 10 powr y\<bar> \<le> (?X + ?X * c) * u" by linarith
  have "\<bar>d - ?X\<bar> \<le> (?X + ?X * c) * u + ?X * c" using a' b by linarith
  also have "\<dots> = ?X * (u + c * u + c)" by (simp add: algebra_simps)
  also have "\<dots> \<le> ?X * (1 / 10 ^ 12)"
    using X0 by (intro mult_left_mono) (simp_all add: u_def c_def)
  finally have "\<bar>d - ?X\<bar> \<le> ?X / 10 ^ 12" by simp
  with y(1) d(1) show ?thesis by auto
qed

subsection \<open>Strings, \<^verbatim>\<open>parseInt\<close> and the fields of a decoded record\<close>

lemma digit_val_lt36: "digit_val c < 36 \<longleftrightarrow> (48 \<le> c \<and> c \<le> 57) \<or> (97 \<le> c \<and> c \<le> 122) \<or> (65 \<le> c \<and> c \<le> 90)"
  by (auto simp: digit_val_def)

lemma digit_not_space: "digit_val c < 36 \<Longrightarrow> \<not> is_white_space c"
  by (auto simp: digit_val_lt36 is_white_space_def)

lemma digit_not_sign: "digit_val c < 36 \<Longrightarrow> c \<noteq> 43 \<and> c \<noteq> 45"
  by (auto simp: digit_val_lt36)

lemma digit_val_x: "digit_val 120 = 33" "digit_val 88 = 33"
  by (simp_all add: digit_val_def)

lemma radix_value_Nil: "radix_value R [] = 0"
  by (simp add: radix_value_def)

lemma radix_value_snoc: "radix_value R (Z @ [c]) = radix_value R Z * R + digit_val c"
  by (simp add: radix_value_def)


lemma parseInt_all_digits:
  assumes R: "2 \<le> R" "R \<le> 36" and ne: "Z \<noteq> []" and all: "list_all (\<lambda>c. digit_val c < R) Z"
  shows "parseInt Z R = PInt (int (radix_value R Z))"
proof -
  obtain c cs where Z: "Z = c # cs" using ne by (cases Z) auto
  from all Z R have c: "digit_val c < 36" by simp
  have ws: "dropWhile is_white_space Z = Z"
    using Z digit_not_space [OF c] by simp
  have sg: "hd Z \<noteq> 43" "hd Z \<noteq> 45" using digit_not_sign [OF c] Z by simp_all
  have px: "take 2 Z \<noteq> [48, 120] \<and> take 2 Z \<noteq> [48, 88]" if "R = 16"
  proof (cases cs)
    case Nil
    then show ?thesis using Z by simp
  next
    case (Cons d ds)
    with all Z that have "digit_val d < 16" by simp
    then have "d \<noteq> 120 \<and> d \<noteq> 88" using digit_val_x by auto
    then show ?thesis using Z Cons by simp
  qed
  have hp: "\<not> ((R = 0 \<or> R = 16) \<and> (take 2 Z = [48, 120] \<or> take 2 Z = [48, 88]))"
    using px R by auto
  have hp': "\<not> (R = 16 \<and> (take 2 Z = [48, 120] \<or> take 2 Z = [48, 88]))"
    using px by auto
  have tw: "takeWhile (\<lambda>c. digit_val c < R) Z = Z"
    using all by (simp add: takeWhile_eq_all_conv list_all_iff)
  have R': "R \<noteq> 0" "\<not> R < 2" "\<not> 36 < R" using R by simp_all
  show ?thesis
    unfolding parseInt_def Let_def ws
    by (simp only: hp hp' sg tw R' ne if_False simp_thms mult_1)
qed

lemma digit_val_digit_char: "d < 36 \<Longrightarrow> digit_val (digit_char d) = d"
  by (auto simp: digit_val_def digit_char_def)

lemma digit_char_digit_val:
  "(48 \<le> c \<and> c \<le> 57) \<or> (97 \<le> c \<and> c \<le> 122) \<Longrightarrow> digit_char (digit_val c) = c"
  by (auto simp: digit_val_def digit_char_def)

lemma radix_value_single: "radix_value R [c] = digit_val c"
  by (simp add: radix_value_def)

lemma radix_value_digits: "2 \<le> R \<Longrightarrow> R \<le> 36 \<Longrightarrow> radix_value R (digits R n) = n"
proof (induction R n rule: digits.induct)
  case (1 R n)
  show ?case
  proof (cases "n < R")
    case True
    with "1.prems" have "n < 36" by simp
    with True show ?thesis
      by (simp add: digits.simps [of R n] radix_value_single digit_val_digit_char)
  next
    case False
    with "1.prems" have ih: "radix_value R (digits R (n div R)) = n div R"
      by (intro "1.IH") simp_all
    have "n mod R < R" using "1.prems" by simp
    then have "n mod R < 36" using "1.prems" by linarith
    with False "1.prems" show ?thesis
      by (simp add: digits.simps [of R n] radix_value_snoc ih digit_val_digit_char)
  qed
qed

lemma digits_not_Nil: "digits R n \<noteq> []"
  by (simp add: digits.simps [of R n])

lemma digits_valid: "2 \<le> R \<Longrightarrow> R \<le> 36 \<Longrightarrow> list_all (\<lambda>c. digit_val c < R) (digits R n)"
proof (induction R n rule: digits.induct)
  case (1 R n)
  show ?case
  proof (cases "n < R")
    case True
    with "1.prems" have "n < 36" by simp
    with True show ?thesis
      by (simp add: digits.simps [of R n] digit_val_digit_char)
  next
    case False
    with "1.prems" have ih: "list_all (\<lambda>c. digit_val c < R) (digits R (n div R))"
      by (intro "1.IH") simp_all
    have m: "n mod R < R" using "1.prems" by simp
    have "n mod R < 36" using m "1.prems" by linarith
    with False "1.prems" m show ?thesis
      by (simp add: digits.simps [of R n] ih digit_val_digit_char)
  qed
qed

lemma length_digits: "2 \<le> R \<Longrightarrow> n < R ^ k \<Longrightarrow> 1 \<le> k \<Longrightarrow> length (digits R n) \<le> k"
proof (induction R n arbitrary: k rule: digits.induct)
  case (1 R n)
  show ?case
  proof (cases "n < R")
    case True
    with "1.prems" show ?thesis by (simp add: digits.simps [of R n])
  next
    case False
    obtain j where k: "k = Suc j" using "1.prems" by (cases k) auto
    have j: "1 \<le> j"
    proof (rule ccontr)
      assume "\<not> 1 \<le> j"
      then have "k = 1" using k by simp
      with "1.prems" False show False by simp
    qed
    have "n div R < R ^ j"
      using "1.prems" k by (simp add: less_mult_imp_div_less mult.commute)
    with False "1.prems" j have "length (digits R (n div R)) \<le> j"
      by (intro "1.IH") simp_all
    with False "1.prems" k show ?thesis by (simp add: digits.simps [of R n])
  qed
qed

lemma foldl_radix_acc:
  "foldl (\<lambda>a c. a * R + digit_val c) a Z = a * R ^ length Z + foldl (\<lambda>a c. a * R + digit_val c) 0 Z"
proof (induction Z rule: rev_induct)
  case Nil
  then show ?case by simp
next
  case (snoc c Z)
  then show ?case by (simp add: algebra_simps)
qed

lemma radix_value_Cons: "radix_value R (c # Z) = digit_val c * R ^ length Z + radix_value R Z"
  unfolding radix_value_def using foldl_radix_acc [of R "digit_val c" Z] by simp

lemma radix_value_zeros: "radix_value R (replicate k 48 @ Z) = radix_value R Z"
  by (induction k) (simp_all add: radix_value_Cons digit_val_def)

lemma radix_value_bound:
  "list_all (\<lambda>c. digit_val c < R) Z \<Longrightarrow> radix_value R Z < R ^ length Z"
proof (induction Z rule: rev_induct)
  case Nil
  then show ?case by (simp add: radix_value_Nil)
next
  case (snoc c Z)
  then have v: "radix_value R Z < R ^ length Z" and c: "digit_val c < R" by simp_all
  from v have "radix_value R Z + 1 \<le> R ^ length Z" by simp
  then have "(radix_value R Z + 1) * R \<le> R ^ length Z * R" by (rule mult_le_mono1)
  then have "radix_value R Z * R + R \<le> R ^ length Z * R" by (simp add: algebra_simps)
  with c have "radix_value R Z * R + digit_val c < R ^ length Z * R" by linarith
  then show ?case by (simp add: radix_value_snoc mult.commute)
qed

lemma length_substr: "i + n \<le> length s \<Longrightarrow> length (substr s i n) = n"
  by (simp add: substr_def)

lemma parse_joinCode:
  "map_option joinCode (parse dataString rssi now) =
     Some (Number_toString (parseInt (substr dataString 32 4 @ substr dataString 36 4) 16) 36)"
  by (simp add: parse_def Let_def new_Beacon_def)

lemma lower36_digit_val:
  "(48 \<le> c \<and> c \<le> 57) \<or> (97 \<le> c \<and> c \<le> 122) \<Longrightarrow> digit_val c < 36"
  by (auto simp: digit_val_def)

lemma lower36_nonzero:
  "(48 \<le> c \<and> c \<le> 57) \<or> (97 \<le> c \<and> c \<le> 122) \<Longrightarrow> c \<noteq> 48 \<Longrightarrow> 0 < digit_val c"
  by (auto simp: digit_val_def)

lemma digits_radix_value:
  "canonical_base36 S \<Longrightarrow> digits 36 (radix_value 36 S) = S"
proof (induction S rule: rev_induct)
  case Nil
  then show ?case by (simp add: canonical_base36_def)
next
  case (snoc c Z)
  let ?low = "\<lambda>c::nat. (48 \<le> c \<and> c \<le> 57) \<or> (97 \<le> c \<and> c \<le> 122)"
  from snoc.prems have c: "?low c" and Zl: "list_all ?low Z"
    by (simp_all add: canonical_base36_def)
  have dc: "digit_val c < 36" using c by (rule lower36_digit_val)
  show ?case
  proof (cases Z)
    case Nil
    with dc c show ?thesis
      by (simp add: radix_value_single digits.simps [of 36 "digit_val c"] digit_char_digit_val)
  next
    case (Cons z zs)
    with snoc.prems have z: "z \<noteq> 48" by (simp add: canonical_base36_def)
    from Zl Cons have zl: "?low z" by simp
    have canZ: "canonical_base36 Z"
      using Zl Cons z by (simp add: canonical_base36_def)
    then have ih: "digits 36 (radix_value 36 Z) = Z" by (rule snoc.IH)
    have "0 < digit_val z" using zl z by (rule lower36_nonzero)
    then have "0 < digit_val z * 36 ^ length zs" by simp
    then have pos: "1 \<le> radix_value 36 Z"
      unfolding Cons radix_value_Cons by linarith
    let ?n = "radix_value 36 Z * 36 + digit_val c"
    have big: "\<not> ?n < 36" using pos by simp
    have dv: "?n div 36 = radix_value 36 Z" and md: "?n mod 36 = digit_val c"
      using dc by simp_all
    have "digits 36 ?n = digits 36 (?n div 36) @ [digit_char (?n mod 36)]"
      using big by (subst digits.simps) simp
    also have "\<dots> = Z @ [c]"
      unfolding dv md ih using c by (simp add: digit_char_digit_val)
    finally show ?thesis by (simp add: radix_value_snoc)
  qed
qed

lemma parseInt_canonical:
  assumes "canonical_base36 S"
  shows "parseInt S 36 = PInt (int (radix_value 36 S))"
proof -
  from assms have "S \<noteq> []" and "list_all (\<lambda>c. digit_val c < 36) S"
    by (auto simp: canonical_base36_def list_all_iff intro: lower36_digit_val)
  then show ?thesis by (intro parseInt_all_digits) simp_all
qed

lemma hex_field_value:
  assumes "v < 16 ^ 8"
  defines "h \<equiv> padStart (digits 16 v) 8 48"
  shows "length h = 8" and "parseInt h 16 = PInt (int v)"
proof -
  have l: "length (digits 16 v) \<le> 8"
    using assms(1) by (intro length_digits) simp_all
  then show len: "length h = 8" by (simp add: h_def padStart_def)
  then have ne: "h \<noteq> []" by auto
  have z: "digit_val 48 < 16" by (simp add: digit_val_def)
  have "list_all (\<lambda>c. digit_val c < 16) h"
    using digits_valid [of 16 v] z by (auto simp add: h_def padStart_def list_all_iff)
  then have "parseInt h 16 = PInt (int (radix_value 16 h))"
    using ne by (intro parseInt_all_digits) simp_all
  also have "radix_value 16 h = v"
    by (simp add: h_def padStart_def radix_value_zeros radix_value_digits)
  finally show "parseInt h 16 = PInt (int v)" .
qed

lemma parseInt_empty: "parseInt [] 16 = PNaN"
  by (simp add: parseInt_def)

lemma substr_empty: "substr [] i n = []"
  by (simp add: substr_def)

lemma js_sub_NaN_right: "js_sub x NaN = NaN"
  by (cases x) simp_all

lemma parseInt_16_bound:
  assumes "length s \<le> 8"
  shows "parseInt s 16 = PNaN \<or> (\<exists>k. parseInt s 16 = PInt k \<and> k < 16 ^ 8)"
proof -
  define S where "S = dropWhile is_white_space s"
  define S1 where "S1 = (if S \<noteq> [] \<and> (hd S = 43 \<or> hd S = 45) then tl S else S)"
  define S2 where "S2 = (if take 2 S1 = [48, 120] \<or> take 2 S1 = [48, 88] then drop 2 S1 else S1)"
  define Z where "Z = takeWhile (\<lambda>c. digit_val c < 16) S2"
  define sign :: int where "sign = (if S \<noteq> [] \<and> hd S = 45 then - 1 else 1)"
  have "length S \<le> length s" unfolding S_def by (rule length_dropWhile_le)
  moreover have "length S1 \<le> length S" by (simp add: S1_def)
  moreover have "length S2 \<le> length S1" by (simp add: S2_def)
  moreover have "length Z \<le> length S2" unfolding Z_def by (rule length_takeWhile_le)
  ultimately have lz: "length Z \<le> 8" using assms by linarith
  have "list_all (\<lambda>c. digit_val c < 16) Z"
    unfolding Z_def list_all_iff by (auto dest: set_takeWhileD)
  then have "radix_value 16 Z < 16 ^ length Z" by (rule radix_value_bound)
  also have "(16::nat) ^ length Z \<le> 16 ^ 8" using lz by (intro power_increasing) simp_all
  finally have b: "int (radix_value 16 Z) < 16 ^ 8" by (simp flip: of_nat_less_iff)
  have sb: "sign * int (radix_value 16 Z) < 16 ^ 8"
    using b by (auto simp: sign_def intro: order_le_less_trans [of _ 0])
  have "parseInt s 16 = (if Z = [] then PNaN else PInt (sign * int (radix_value 16 Z)))"
    unfolding parseInt_def Let_def Z_def S2_def S1_def S_def sign_def by simp
  with sb show ?thesis by auto
qed


lemma no_payload_gives_zzzzzzz:
  "map_option joinCode (parse ds rssi now) \<noteq> Some (str ''zzzzzzz'')"
proof
  let ?p = "parseInt (substr ds 32 4 @ substr ds 36 4) 16"
  assume "map_option joinCode (parse ds rssi now) = Some (str ''zzzzzzz'')"
  then have eq: "Number_toString ?p 36 = str ''zzzzzzz''"
    by (simp add: parse_joinCode)
  have "length (substr ds 32 4 @ substr ds 36 4) \<le> 8" by (simp add: substr_def)
  then consider "?p = PNaN" | k where "?p = PInt k" "k < 16 ^ 8"
    using parseInt_16_bound by blast
  then show False
  proof cases
    case 1
    with eq show False by (simp add: str_def)
  next
    case 2
    show False
    proof (cases "k < 0")
      case True
      with eq 2 show False by (simp add: str_def)
    next
      case False
      with eq 2 have d: "digits 36 (nat k) = str ''zzzzzzz''" by simp
      have "nat k = radix_value 36 (digits 36 (nat k))" by (simp add: radix_value_digits)
      also have "\<dots> = 78364164095"
        unfolding d by (simp add: str_def radix_value_def digit_val_def)
      finally show False using 2(2) by simp
    qed
  qed
qed

lemma replicate_zeros:
  "replicate 3 (48::nat) = [48, 48, 48]" "replicate 4 (48::nat) = [48, 48, 48, 48]"
  by code_simp+

lemma encode_47pj: "spec_encode_joinCode (str ''47pj'') = (str ''0003'', str ''0007'')"
  by (simp add: spec_encode_joinCode_def parseInt_def str_def is_white_space_def digit_val_def radix_value_def
    digits.simps digit_char_def padStart_def substr_def Let_def replicate_zeros)

lemma parse_uuid:
  "map_option uuid (parse dataString rssi now) =
     Some (substr dataString 0 8 @ str ''-'' @ substr dataString 8 4 @ str ''-''
            @ substr dataString 12 4 @ str ''-'' @ substr dataString 16 4 @ str ''-''
            @ substr dataString 20 12)"
  by (simp add: parse_def Let_def new_Beacon_def)

lemma parse_Some:
  "parse dataString rssi now =
     Some \<lparr>distance = Math_pow_10 (js_div_pos (js_sub (js_sub (num (parseInt (substr dataString 40 2) 16)) (Fin 256)) rssi) (10 * 2)),
           joinCode = Number_toString (parseInt (substr dataString 32 4 @ substr dataString 36 4) 16) 36,
           lastSeen = now,
           proximity =
            (if js_lt (Math_pow_10 (js_div_pos (js_sub (js_sub (num (parseInt (substr dataString 40 2) 16)) (Fin 256)) rssi) (10 * 2))) (Fin 1)
             then PROXIMITY_IMMEDIATE
             else if js_lt (Math_pow_10 (js_div_pos (js_sub (js_sub (num (parseInt (substr dataString 40 2) 16)) (Fin 256)) rssi) (10 * 2))) (Fin 3)
             then PROXIMITY_NEAR
             else PROXIMITY_FAR),
           uuid = substr dataString 0 8 @ str ''-'' @ substr dataString 8 4 @ str ''-''
            @ substr dataString 12 4 @ str ''-'' @ substr dataString 16 4 @ str ''-''
            @ substr dataString 20 12\<rparr>"
  by (simp add: parse_def Let_def new_Beacon_def)

lemma parse_distance:
  "map_option distance (parse dataString rssi now) =
     Some (Math_pow_10 (js_div_pos
       (js_sub (js_sub (num (parseInt (substr dataString 40 2) 16)) (Fin 256)) rssi) (10 * 2)))"
  by (simp add: parse_Some)



lemma ten_powr_three_fifths:
  "3981 / 1000 < (10::real) powr (3 / 5)" "(10::real) powr (3 / 5) < 3982 / 1000"
proof -
  let ?d = "(10::real) powr (3 / 5)"
  have pos: "0 \<le> ?d" by simp
  have "?d ^ 5 = 10 powr 3" by (simp add: powr_power)
  also have "\<dots> = 1000" by simp
  finally have e: "?d ^ 5 = 1000" .
  show "3981 / 1000 < ?d"
  proof (rule ccontr)
    assume "\<not> 3981 / 1000 < ?d"
    then have "?d \<le> 3981 / 1000" by simp
    then have "?d ^ 5 \<le> (3981 / 1000) ^ 5" using pos by (rule power_mono)
    also have "\<dots> < (1000::real)" by (simp add: power_divide)
    finally show False using e by simp
  qed
  show "?d < 3982 / 1000"
  proof (rule ccontr)
    assume "\<not> ?d < 3982 / 1000"
    then have "3982 / 1000 \<le> ?d" by simp
    then have "(3982 / 1000) ^ 5 \<le> ?d ^ 5" by (intro power_mono) simp_all
    moreover have "(1000::real) < (3982 / 1000) ^ 5" by (simp add: power_divide)
    ultimately show False using e by simp
  qed
qed

lemma PROXIMITY_distinct:
  "distinct [PROXIMITY_IMMEDIATE, PROXIMITY_NEAR, PROXIMITY_FAR, PROXIMITY_UNKNOWN]"
  by (simp add: PROXIMITY_IMMEDIATE_def PROXIMITY_NEAR_def PROXIMITY_FAR_def
      PROXIMITY_UNKNOWN_def str_def)

lemma example_power:
  "parseInt (substr example_payload 40 2) 16 = PInt 198"
  "parseInt (substr (take 40 example_payload @ str ''C7'') 40 2) 16 = PInt 199"
  "parseInt (substr (take 40 example_payload @ str ''ZZ'') 40 2) 16 = PNaN"
  by (simp_all add: example_payload_def substr_def str_def parseInt_def is_white_space_def
      digit_val_def radix_value_def)

lemma decoded_joinCode_form:
  assumes "map_option joinCode (parse ds rssi now) = Some S"
  shows "S = str ''NaN'' \<or> (S \<noteq> [] \<and> hd S = 45) \<or> digits 36 (radix_value 36 S) = S"
proof -
  let ?p = "parseInt (substr ds 32 4 @ substr ds 36 4) 16"
  from assms have eq: "Number_toString ?p 36 = S" by (simp add: parse_joinCode)
  show ?thesis
  proof (cases ?p)
    case PNaN
    with eq show ?thesis by simp
  next
    case (PInt k)
    show ?thesis
    proof (cases "k < 0")
      case True
      with eq PInt show ?thesis by auto
    next
      case False
      with eq PInt have "digits 36 (nat k) = S" by simp
      then show ?thesis using radix_value_digits [of 36 "nat k"] by auto
    qed
  qed
qed

lemma never_decoded:
  "map_option joinCode (parse ds rssi now) \<noteq> Some (str ''0a'')"
  "map_option joinCode (parse ds rssi now) \<noteq> Some (str ''A'')"
proof -
  have a: "digits 36 (radix_value 36 (str ''0a'')) = str ''a''"
    and b: "digits 36 (radix_value 36 (str ''A'')) = str ''a''"
    by (simp_all add: str_def radix_value_def digit_val_def digits.simps digit_char_def)
  show "map_option joinCode (parse ds rssi now) \<noteq> Some (str ''0a'')"
  proof
    assume "map_option joinCode (parse ds rssi now) = Some (str ''0a'')"
    from decoded_joinCode_form [OF this] show False
      unfolding a by (simp add: str_def)
  qed
  show "map_option joinCode (parse ds rssi now) \<noteq> Some (str ''A'')"
  proof
    assume "map_option joinCode (parse ds rssi now) = Some (str ''A'')"
    from decoded_joinCode_form [OF this] show False
      unfolding b by (simp add: str_def)
  qed
qed

subsection \<open>Distances of decoded records\<close>

lemma parseInt_16_abs_bound:
  assumes "length s \<le> n" and "parseInt s 16 = PInt k"
  shows "\<bar>k\<bar> < 16 ^ n"
proof -
  define S where "S = dropWhile is_white_space s"
  define S1 where "S1 = (if S \<noteq> [] \<and> (hd S = 43 \<or> hd S = 45) then tl S else S)"
  define S2 where "S2 = (if take 2 S1 = [48, 120] \<or> take 2 S1 = [48, 88] then drop 2 S1 else S1)"
  define Z where "Z = takeWhile (\<lambda>c. digit_val c < 16) S2"
  define sign :: int where "sign = (if S \<noteq> [] \<and> hd S = 45 then - 1 else 1)"
  have "length S \<le> length s" unfolding S_def by (rule length_dropWhile_le)
  moreover have "length S1 \<le> length S" by (simp add: S1_def)
  moreover have "length S2 \<le> length S1" by (simp add: S2_def)
  moreover have "length Z \<le> length S2" unfolding Z_def by (rule length_takeWhile_le)
  ultimately have lz: "length Z \<le> n" using assms(1) by linarith
  have "list_all (\<lambda>c. digit_val c < 16) Z"
    unfolding Z_def list_all_iff by (auto dest: set_takeWhileD)
  then have "radix_value 16 Z < 16 ^ length Z" by (rule radix_value_bound)
  also have "(16::nat) ^ length Z \<le> 16 ^ n" using lz by (intro power_increasing) simp_all
  finally have b: "int (radix_value 16 Z) < 16 ^ n" by (simp flip: of_nat_less_iff)
  have sb: "\<bar>sign * int (radix_value 16 Z)\<bar> < 16 ^ n"
    using b by (simp add: sign_def abs_mult)
  have "parseInt s 16 = (if Z = [] then PNaN else PInt (sign * int (radix_value 16 Z)))"
    unfolding parseInt_def Let_def Z_def S2_def S1_def S_def sign_def by simp
  with sb assms(2) show ?thesis by (auto split: if_splits)
qed

lemma distance_of_int:
  assumes p: "parseInt (substr payload 40 2) 16 = PInt p" and r: "\<bar>p - 256 - r\<bar> \<le> 6000"
  shows "map_option distance (parse payload (Fin (of_int r)) now)
    = Some (Math_pow_10 (js_div_pos (Fin (of_int (p - 256 - r))) (10 * 2)))"
proof -
  have "length (substr payload 40 2) \<le> 2" by (simp add: substr_def)
  then have "\<bar>p\<bar> < 16 ^ 2" using p by (rule parseInt_16_abs_bound)
  then have "\<bar>p - 256\<bar> < 2 ^ 53" by simp
  then have a: "js_sub (Fin (of_int p)) (Fin (of_int 256)) = Fin (of_int (p - 256))"
    by (rule js_sub_int)
  have "\<bar>p - 256 - r\<bar> < 2 ^ 53" using r by simp
  then have b: "js_sub (Fin (of_int (p - 256))) (Fin (of_int r)) = Fin (of_int (p - 256 - r))"
    by (rule js_sub_int)
  show ?thesis
    unfolding parse_distance p using a b by simp
qed

lemma distance_strict:
  assumes lt: "n1 < n2" and b1: "\<bar>n1\<bar> \<le> 6000" and b2: "\<bar>n2\<bar> \<le> 6000"
  shows "\<exists>d1 d2. Math_pow_10 (js_div_pos (Fin (of_int n1)) (10 * 2)) = Fin d1
     \<and> Math_pow_10 (js_div_pos (Fin (of_int n2)) (10 * 2)) = Fin d2 \<and> d1 < d2"
proof -
  let ?X1 = "(10::real) powr (of_int n1 / 20)" and ?X2 = "(10::real) powr (of_int n2 / 20)"
  obtain d1 where d1: "Math_pow_10 (js_div_pos (Fin (of_int n1)) (10 * 2)) = Fin d1"
    "\<bar>d1 - ?X1\<bar> \<le> ?X1 / 10 ^ 12"
    using distance_accuracy [OF b1] by blast
  obtain d2 where d2: "Math_pow_10 (js_div_pos (Fin (of_int n2)) (10 * 2)) = Fin d2"
    "\<bar>d2 - ?X2\<bar> \<le> ?X2 / 10 ^ 12"
    using distance_accuracy [OF b2] by blast
  have X1: "0 < ?X1" by simp
  have "n1 + 1 \<le> n2" using lt by simp
  then have "real_of_int n1 + 1 \<le> real_of_int n2" by (simp flip: of_int_le_iff [where 'a = real])
  then have "real_of_int n1 / 20 + 1 / 20 \<le> real_of_int n2 / 20" by simp
  then have "(10::real) powr (real_of_int n1 / 20 + 1 / 20) \<le> ?X2"
    by (intro powr_mono) simp_all
  then have s: "?X1 * 10 powr (1 / 20) \<le> ?X2" by (simp add: powr_add)
  have "1 + ln (10::real) / 20 \<le> exp (ln 10 / 20)" by (rule exp_ge_add_one_self)
  also have "exp (ln 10 / 20) = (10::real) powr (1 / 20)" by (simp add: powr_def)
  finally have "11 / 10 \<le> (10::real) powr (1 / 20)" using ln10_bounds(1) by simp
  then have "?X1 * (11 / 10) \<le> ?X1 * 10 powr (1 / 20)" using X1 by (intro mult_left_mono) simp_all
  with s have g: "?X1 * (11 / 10) \<le> ?X2" by linarith
  have t: "(10::real) ^ 12 = 1000000000000" by simp
  have e1: "d1 \<le> ?X1 + ?X1 / 1000000000000" using d1(2) unfolding t by linarith
  have e2: "?X2 - ?X2 / 1000000000000 \<le> d2" using d2(2) unfolding t by linarith
  have "d1 < d2" using e1 e2 g X1 by linarith
  with d1(1) d2(1) show ?thesis by blast
qed

lemma Math_pow_10_underflow:
  assumes "y \<le> - 349"
  shows "Math_pow_10 (Fin y) = Fin 0"
proof -
  have "(10::real) powr y \<le> 10 powr (- 349)" using assms by (intro powr_mono) simp_all
  also have "\<dots> < 1 / 2 ^ 1075" by (simp add: powr_minus_divide)
  finally have "\<bar>10 powr y\<bar> < 1 / 2 ^ 1075" by simp
  then show ?thesis by (simp add: round_binary64_underflow)
qed

lemma distance_underflow:
  assumes "n \<le> - 7000" and "- 1000000 \<le> n"
  shows "Math_pow_10 (js_div_pos (Fin (of_int n)) (10 * 2)) = Fin 0"
proof -
  let ?x = "real_of_int n / 20"
  have n: "real_of_int n \<le> - 7000" "- 1000000 \<le> real_of_int n"
    using assms by (simp_all flip: of_int_le_iff [where 'a = real])
  then have x: "?x \<le> - 350" "- 50000 \<le> ?x" by simp_all
  have "(2::real) powr (- 1022) \<le> 1" by (simp add: powr_minus_divide)
  then have lo: "2 powr (- 1022) \<le> \<bar>?x\<bar>" using x by linarith
  have "(50000::real) \<le> binary64_limit / 2" by (simp add: binary64_limit_def)
  then have hi: "\<bar>?x\<bar> \<le> binary64_limit / 2" using x by linarith
  obtain y where y: "round_binary64 ?x = Fin y" "\<bar>y - ?x\<bar> \<le> \<bar>?x\<bar> / 2 ^ 53"
    using round_binary64_error [OF lo hi] by blast
  have "\<bar>?x\<bar> \<le> 50000" using x by linarith
  then have "\<bar>?x\<bar> / 2 ^ 53 \<le> 50000 / 2 ^ 53" by (intro divide_right_mono) simp_all
  also have "\<dots> \<le> (9::real) / 10" by simp
  finally have "y \<le> - 349" using y(2) x by linarith
  then have "Math_pow_10 (Fin y) = Fin 0" by (rule Math_pow_10_underflow)
  with y(1) show ?thesis by simp
qed

lemma round_binary64_nearest:
  assumes e: "- 1022 \<le> e" and lo: "2 powr of_int e \<le> \<bar>x\<bar>" and hi: "\<bar>x\<bar> < 2 powr of_int (e + 1)"
    and n: "round_half_even (x / 2 powr of_int (e - 52)) = n"
    and y: "y = of_int n * 2 powr of_int (e - 52)" and b: "\<bar>y\<bar> < binary64_limit"
  shows "round_binary64 x = Fin y"
  unfolding round_binary64_def quantum_normal [OF e lo hi] round_to_quantum_def n y [symmetric]
  using b by (rule overflow_Fin)

lemma absorb_70: "js_sub (Fin (- 58)) (Fin (1 / 2 ^ 70)) = Fin (- 58)"
proof -
  have "round_binary64 (- 58 - 1 / 2 ^ 70) = Fin (- 58)"
  proof (rule round_binary64_nearest [where e = 5 and n = "- 58 * 2 ^ 47"])
    have q: "(2::real) powr of_int (5 - 52) = 1 / 2 ^ 47" by (simp add: powr_minus_divide)
    show "round_half_even ((- 58 - 1 / 2 ^ 70) / 2 powr real_of_int (5 - 52)) = - 58 * 2 ^ 47"
      unfolding q by (simp add: round_half_even_def)
    show "(- 58::real) = real_of_int (- 58 * 2 ^ 47) * 2 powr real_of_int (5 - 52)"
      unfolding q by simp
  qed (simp_all add: binary64_limit_def)
  then show ?thesis by simp
qed


lemma absorb_69: "js_sub (Fin (- 58)) (Fin (1 / 2 ^ 69)) = Fin (- 58)"
proof -
  have "round_binary64 (- 58 - 1 / 2 ^ 69) = Fin (- 58)"
  proof (rule round_binary64_nearest [where e = 5 and n = "- 58 * 2 ^ 47"])
    have q: "(2::real) powr of_int (5 - 52) = 1 / 2 ^ 47" by (simp add: powr_minus_divide)
    show "round_half_even ((- 58 - 1 / 2 ^ 69) / 2 powr real_of_int (5 - 52)) = - 58 * 2 ^ 47"
      unfolding q by (simp add: round_half_even_def)
    show "(- 58::real) = real_of_int (- 58 * 2 ^ 47) * 2 powr real_of_int (5 - 52)"
      unfolding q by simp
  qed (simp_all add: binary64_limit_def)
  then show ?thesis by simp
qed

lemma example_power_value:
  "js_sub (num (parseInt (substr example_payload 40 2) 16)) (Fin 256) = Fin (- 58)"
  unfolding example_power using js_sub_int [of 198 256] by simp

subsection \<open>Rounded distances\<close>








subsection \<open>Short payloads\<close>

text \<open>
  C1, at the inputs where the code departs from it. The documentation of \<^verbatim>\<open>parse\<close>
  promises \<^verbatim>\<open>null\<close> for a device that is not compatible, and the claim asks for an absent
  result when the payload is too short. The code has no such check: on the empty string
  and on a payload of 10 hexadecimal characters it returns a record, built from the
  characters that are there and from \<open>NaN\<close>. It does not throw either.
\<close>

theorem parse_short_payload_not_null:
  "parse [] (Fin (- 70)) now =
     Some \<lparr>distance = NaN, joinCode = str ''NaN'', lastSeen = now,
           proximity = PROXIMITY_FAR, uuid = str ''----''\<rparr>
   \<and> parse (str ''0123456789'') (Fin (- 70)) now =
     Some \<lparr>distance = NaN, joinCode = str ''NaN'', lastSeen = now,
           proximity = PROXIMITY_FAR, uuid = str ''01234567-89---''\<rparr>"
proof
  show "parse [] (Fin (- 70)) now =
     Some \<lparr>distance = NaN, joinCode = str ''NaN'', lastSeen = now,
           proximity = PROXIMITY_FAR, uuid = str ''----''\<rparr>"
    by (simp add: parse_def Let_def new_Beacon_def substr_empty parseInt_empty str_def)
  have s: "substr (str ''0123456789'') 32 4 = []" "substr (str ''0123456789'') 36 4 = []"
    "substr (str ''0123456789'') 40 2 = []"
    by (simp_all add: substr_def str_def)
  show "parse (str ''0123456789'') (Fin (- 70)) now =
     Some \<lparr>distance = NaN, joinCode = str ''NaN'', lastSeen = now,
           proximity = PROXIMITY_FAR, uuid = str ''01234567-89---''\<rparr>"
    unfolding parse_def Let_def s
    by (simp add: new_Beacon_def parseInt_empty) (simp add: substr_def str_def)
qed

subsection \<open>The identity\<close>

text \<open>
  C2, at the input where the code departs from it. The comment in \<^verbatim>\<open>parse\<close> lays the
  payload out with a manufacturer string in front of the UUID, and the claim expects the
  identity to be read after it. The code reads the identity at offset 0 of every payload.
  On the end-to-end example of the specification, where the manufacturer bytes
  \<^verbatim>\<open>AABBCCDD\<close> come first, it returns \<^verbatim>\<open>AABBCCDD-1234-5678-90AB-CDEF12345678\<close>. The
  identity that is expected, \<^verbatim>\<open>12345678-90AB-CDEF-1234-567890ABCDEF\<close>, is the grouping of
  the 32 characters that follow the manufacturer bytes; the grouping of the characters at
  offsets 16 to 47 is yet another text.
\<close>

theorem uuid_read_at_offset_0:
  "map_option uuid (parse dataString rssi now) = Some (spec_identity 0 dataString)
   \<and> map_option uuid (parse spec_example_payload (Fin (- 70)) 0)
     = Some (str ''AABBCCDD-1234-5678-90AB-CDEF12345678'')
   \<and> spec_identity 8 spec_example_payload = str ''12345678-90AB-CDEF-1234-567890ABCDEF''
   \<and> spec_identity 16 spec_example_payload = str ''90ABCDEF-1234-5678-90AB-CDEF00000003''
   \<and> str ''AABBCCDD-1234-5678-90AB-CDEF12345678'' \<noteq> str ''12345678-90AB-CDEF-1234-567890ABCDEF''
   \<and> str ''AABBCCDD-1234-5678-90AB-CDEF12345678'' \<noteq> str ''90ABCDEF-1234-5678-90AB-CDEF00000003''"
proof -
  have "map_option uuid (parse dataString rssi now) = Some (spec_identity 0 dataString)"
    unfolding parse_uuid
    by (simp add: spec_identity_def substr_def str_def drop_take)
  moreover have "map_option uuid (parse spec_example_payload (Fin (- 70)) 0)
     = Some (str ''AABBCCDD-1234-5678-90AB-CDEF12345678'')
   \<and> spec_identity 8 spec_example_payload = str ''12345678-90AB-CDEF-1234-567890ABCDEF''
   \<and> spec_identity 16 spec_example_payload = str ''90ABCDEF-1234-5678-90AB-CDEF00000003''
   \<and> str ''AABBCCDD-1234-5678-90AB-CDEF12345678'' \<noteq> str ''12345678-90AB-CDEF-1234-567890ABCDEF''
   \<and> str ''AABBCCDD-1234-5678-90AB-CDEF12345678'' \<noteq> str ''90ABCDEF-1234-5678-90AB-CDEF00000003''"
    unfolding parse_uuid
    by (simp add: spec_example_payload_def spec_identity_def substr_def str_def)
  ultimately show ?thesis by blast
qed

subsection \<open>Transmit power and distance\<close>




subsection \<open>Proximity\<close>

text \<open>
  C4. The proximity of a decoded record is a function of its distance alone: below 1 it
  is \<^verbatim>\<open>immediate\<close>, from 1 and below 3 it is \<^verbatim>\<open>near\<close>, from 3 on it is \<^verbatim>\<open>far\<close> (and
  \<^verbatim>\<open>far\<close> too when the distance is \<open>NaN\<close>, as both comparisons are false). A distance
  of exactly 1 gives \<^verbatim>\<open>near\<close>, a distance of exactly 3 gives \<^verbatim>\<open>far\<close>, and \<^verbatim>\<open>unknown\<close>,
  which differs from the three other labels, is never assigned.
\<close>

theorem proximity_thresholds:
  "\<exists>b. parse dataString rssi now = Some b
     \<and> proximity b =
         (case distance b of
            Fin d \<Rightarrow> if d < 1 then PROXIMITY_IMMEDIATE
                     else if d < 3 then PROXIMITY_NEAR
                     else PROXIMITY_FAR
          | NegInf \<Rightarrow> PROXIMITY_IMMEDIATE
          | PosInf \<Rightarrow> PROXIMITY_FAR
          | NaN \<Rightarrow> PROXIMITY_FAR)
     \<and> (distance b = Fin 1 \<longrightarrow> proximity b = PROXIMITY_NEAR)
     \<and> (distance b = Fin 3 \<longrightarrow> proximity b = PROXIMITY_FAR)
     \<and> proximity b \<noteq> PROXIMITY_UNKNOWN
     \<and> distinct [PROXIMITY_IMMEDIATE, PROXIMITY_NEAR, PROXIMITY_FAR, PROXIMITY_UNKNOWN]"
proof -
  let ?d = "Math_pow_10 (js_div_pos (js_sub (js_sub (num (parseInt (substr dataString 40 2) 16)) (Fin 256)) rssi) (10 * 2))"
  obtain b where b: "parse dataString rssi now = Some b" "distance b = ?d"
    "proximity b = (if js_lt ?d (Fin 1) then PROXIMITY_IMMEDIATE
             else if js_lt ?d (Fin 3) then PROXIMITY_NEAR else PROXIMITY_FAR)"
    by (simp add: parse_Some)
  have c: "proximity b =
         (case distance b of
            Fin d \<Rightarrow> if d < 1 then PROXIMITY_IMMEDIATE
                     else if d < 3 then PROXIMITY_NEAR
                     else PROXIMITY_FAR
          | NegInf \<Rightarrow> PROXIMITY_IMMEDIATE
          | PosInf \<Rightarrow> PROXIMITY_FAR
          | NaN \<Rightarrow> PROXIMITY_FAR)"
    unfolding b(3) b(2) by (cases ?d) simp_all
  have u: "proximity b \<noteq> PROXIMITY_UNKNOWN"
    unfolding b(3) using PROXIMITY_distinct by simp
  have n: "distance b = Fin 1 \<longrightarrow> proximity b = PROXIMITY_NEAR"
    and f: "distance b = Fin 3 \<longrightarrow> proximity b = PROXIMITY_FAR"
    unfolding c by simp_all
  show ?thesis using b(1) c n f u PROXIMITY_distinct by blast
qed

theorem proximity_thresholds_witness:
  "map_option distance (parse example_payload (Fin (- 58)) 0) = Some (Fin 1)
   \<and> map_option proximity (parse example_payload (Fin (- 58)) 0) = Some PROXIMITY_NEAR
   \<and> (\<exists>d. map_option distance (parse example_payload (Fin (- 70)) 0) = Some (Fin d) \<and> 3 \<le> d)
   \<and> map_option proximity (parse example_payload (Fin (- 70)) 0) = Some PROXIMITY_FAR"
proof -
  have z: "js_sub (Fin (- 58)) (Fin (- 58)) = Fin 0"
    using js_sub_int [of "- 58" "- 58"] by simp
  have o: "round_binary64 1 = Fin 1"
    using round_binary64_int [of 1] by simp
  have d1: "map_option distance (parse example_payload (Fin (- 58)) 0) = Some (Fin 1)"
    unfolding parse_distance example_power_value z by (simp add: round_binary64_0 o)
  have "\<bar>198 - 256 - (- 70) :: int\<bar> \<le> 6000" by simp
  from distance_of_int [OF example_power(1) this, of 0] distance_accuracy [of 12]
  obtain d where d: "map_option distance (parse example_payload (Fin (- 70)) 0) = Some (Fin d)"
    and e: "\<bar>d - 10 powr (3 / 5)\<bar> \<le> 10 powr (3 / 5) / 10 ^ 12"
    by auto
  have k: "(10::real) ^ 12 = 1000000000000" by simp
  have "3981 / 1000 < (10::real) powr (3 / 5)" by (rule ten_powr_three_fifths)
  with e have d3: "3 \<le> d" unfolding k by linarith
  from proximity_thresholds [of example_payload "Fin (- 58)" 0] d1
  have n: "map_option proximity (parse example_payload (Fin (- 58)) 0) = Some PROXIMITY_NEAR"
    by auto
  from proximity_thresholds [of example_payload "Fin (- 70)" 0] d d3
  have f: "map_option proximity (parse example_payload (Fin (- 70)) 0) = Some PROXIMITY_FAR"
    by auto
  from d1 n d d3 f show ?thesis by blast
qed

subsection \<open>The join code\<close>

text \<open>
  C5. For every payload of at least 40 characters whose characters at offsets 32 to 39
  are hexadecimal digits, the join code is obtained by concatenating the major field
  (4 characters at offset 32) and the minor field (4 characters at offset 36), reading the
  8 characters as a base-16 integer \<open>v\<close>, and writing \<open>v\<close> in base 36: the join code is
  \<open>digits 36 v\<close>, a text whose base-36 value is \<open>v\<close> again.
\<close>

theorem joinCode_derivation:
  assumes len: "40 \<le> length dataString"
    and hex: "list_all (\<lambda>c. digit_val c < 16) (substr dataString 32 4 @ substr dataString 36 4)"
  shows "\<exists>major minor v.
      major = substr dataString 32 4 \<and> minor = substr dataString 36 4
      \<and> length (major @ minor) = 8
      \<and> parseInt (major @ minor) 16 = PInt (int v)
      \<and> v = radix_value 16 (major @ minor)
      \<and> map_option joinCode (parse dataString rssi now) = Some (Number_toString (PInt (int v)) 36)
      \<and> Number_toString (PInt (int v)) 36 = digits 36 v
      \<and> radix_value 36 (digits 36 v) = v"
proof -
  let ?major = "substr dataString 32 4" and ?minor = "substr dataString 36 4"
  have l: "length ?major = 4" "length ?minor = 4"
    using len by (simp_all add: length_substr)
  then have ne: "?major @ ?minor \<noteq> []" by auto
  have p: "parseInt (?major @ ?minor) 16 = PInt (int (radix_value 16 (?major @ ?minor)))"
    using hex ne by (intro parseInt_all_digits) simp_all
  show ?thesis
    using l p parse_joinCode [of dataString rssi now]
    by (simp add: radix_value_digits)
qed

theorem joinCode_derivation_witness:
  "40 \<le> length example_payload
   \<and> list_all (\<lambda>c. digit_val c < 16) (substr example_payload 32 4 @ substr example_payload 36 4)
   \<and> substr example_payload 32 4 @ substr example_payload 36 4 = str ''00030007''
   \<and> radix_value 16 (str ''00030007'') = 196615
   \<and> map_option joinCode (parse example_payload (Fin (- 70)) 0) = Some (str ''47pj'')"
proof -
  have l: "40 \<le> length example_payload"
    by (simp add: example_payload_def str_def)
  have m: "substr example_payload 32 4 @ substr example_payload 36 4 = str ''00030007''"
    by (simp add: example_payload_def substr_def str_def)
  have h: "list_all (\<lambda>c. digit_val c < 16) (substr example_payload 32 4 @ substr example_payload 36 4)"
    unfolding m by (simp add: str_def digit_val_def)
  have v: "radix_value 16 (str ''00030007'') = 196615"
    by (simp add: radix_value_def str_def digit_val_def)
  have d: "digits 36 196615 = str ''47pj''"
    by (simp add: digits.simps digit_char_def str_def)
  show ?thesis
    using joinCode_derivation [OF l h, of "Fin (- 70)" 0] l h m v d by (simp add: m)
qed

subsection \<open>Join-code round trip\<close>

text \<open>
  C6, as the code has it. Let \<open>S\<close> be a base-36 text in the form \<^verbatim>\<open>toString(36)\<close>
  writes (not empty, digits and lower-case letters only, no leading zero) whose value is
  below \<open>16 ^ 8\<close>, so that it fits the two fields of four hexadecimal characters.
  Encoding \<open>S\<close> into the major and minor fields and decoding the payload gives a record
  whose join code is exactly \<open>S\<close>.
\<close>

theorem joinCode_roundtrip:
  assumes can: "canonical_base36 S" and fits: "radix_value 36 S < 16 ^ 8"
    and id: "length identity = 32"
  shows "map_option joinCode (parse (spec_joinCode_payload identity S powerByte) rssi now) = Some S"
proof -
  let ?v = "radix_value 36 S"
  let ?h = "padStart (digits 16 ?v) 8 48"
  let ?major = "substr ?h 0 4" and ?minor = "substr ?h 4 4"
  let ?payload = "identity @ ?major @ ?minor @ powerByte"
  have h: "length ?h = 8" "parseInt ?h 16 = PInt (int ?v)"
    using hex_field_value [OF fits] by simp_all
  have enc: "spec_joinCode_payload identity S powerByte = ?payload"
    by (simp add: spec_joinCode_payload_def spec_encode_joinCode_def Let_def
        parseInt_canonical [OF can])
  have lm: "length ?major = 4" "length ?minor = 4"
    using h(1) by (simp_all add: substr_def)
  have cat: "?major @ ?minor = ?h"
    using h(1) by (simp add: substr_def flip: take_add)
  have "substr ?payload 32 4 = ?major" and "substr ?payload 36 4 = ?minor"
    using id lm by (simp_all add: substr_def)
  then have "map_option joinCode (parse ?payload rssi now)
      = Some (Number_toString (parseInt (?major @ ?minor) 16) 36)"
    by (simp add: parse_joinCode)
  also have "\<dots> = Some (digits 36 ?v)"
    by (simp add: cat h(2))
  also have "\<dots> = Some S"
    by (simp add: digits_radix_value [OF can])
  finally show ?thesis by (simp add: enc)
qed

theorem joinCode_roundtrip_witness:
  "canonical_base36 (str ''47pj'') \<and> radix_value 36 (str ''47pj'') < 16 ^ 8
   \<and> length (str ''1234567890ABCDEF1234567890ABCDEF'') = 32
   \<and> spec_joinCode_payload (str ''1234567890ABCDEF1234567890ABCDEF'') (str ''47pj'') (str ''C6'')
       = example_payload
   \<and> map_option joinCode (parse example_payload (Fin (- 70)) 0) = Some (str ''47pj'')"
proof -
  have c: "canonical_base36 (str ''47pj'')"
    by (simp add: canonical_base36_def str_def)
  have f: "radix_value 36 (str ''47pj'') < 16 ^ 8"
    by (simp add: radix_value_def str_def digit_val_def)
  have l: "length (str ''1234567890ABCDEF1234567890ABCDEF'') = 32"
    by (simp add: str_def)
  have p: "spec_joinCode_payload (str ''1234567890ABCDEF1234567890ABCDEF'') (str ''47pj'') (str ''C6'')
       = example_payload"
    unfolding spec_joinCode_payload_def encode_47pj by (simp add: example_payload_def str_def)
  show ?thesis
    using joinCode_roundtrip [OF c f l, of "str ''C6''" "Fin (- 70)" 0] c f l p by simp
qed

text \<open>
  The round trip does not hold for every base-36 text. A leading zero is lost
  (\<^verbatim>\<open>0a\<close> comes back as \<^verbatim>\<open>a\<close>) and upper case comes back as lower case (\<^verbatim>\<open>A\<close> comes
  back as \<^verbatim>\<open>a\<close>). This does not depend on the encoder: \<^verbatim>\<open>0a\<close> and \<^verbatim>\<open>A\<close> are the join
  code of no payload at all, and neither is \<^verbatim>\<open>zzzzzzz\<close>, whose value does not fit eight
  hexadecimal digits.
\<close>

theorem joinCode_roundtrip_counterexample:
  "map_option joinCode (parse (spec_joinCode_payload (str ''1234567890ABCDEF1234567890ABCDEF'')
      (str ''0a'') (str ''C6'')) (Fin (- 70)) 0) = Some (str ''a'')
   \<and> str ''a'' \<noteq> str ''0a''
   \<and> map_option joinCode (parse (spec_joinCode_payload (str ''1234567890ABCDEF1234567890ABCDEF'')
      (str ''A'') (str ''C6'')) (Fin (- 70)) 0) = Some (str ''a'')
   \<and> str ''a'' \<noteq> str ''A''
   \<and> \<not> (\<exists>ds rssi now. map_option joinCode (parse ds rssi now) = Some (str ''0a''))
   \<and> \<not> (\<exists>ds rssi now. map_option joinCode (parse ds rssi now) = Some (str ''A''))
   \<and> \<not> (\<exists>ds rssi now. map_option joinCode (parse ds rssi now) = Some (str ''zzzzzzz''))"
proof -
  have e1: "spec_encode_joinCode (str ''0a'') = (str ''0000'', str ''000a'')"
    by (simp add: spec_encode_joinCode_def parseInt_def str_def is_white_space_def digit_val_def
        radix_value_def digits.simps digit_char_def padStart_def substr_def Let_def replicate_zeros)
  have e2: "spec_encode_joinCode (str ''A'') = (str ''0000'', str ''000a'')"
    by (simp add: spec_encode_joinCode_def parseInt_def str_def is_white_space_def digit_val_def
        radix_value_def digits.simps digit_char_def padStart_def substr_def Let_def replicate_zeros)
  have d: "Number_toString (parseInt (str ''0000000a'') 16) 36 = str ''a''"
    by (simp add: parseInt_def str_def is_white_space_def digit_val_def
        radix_value_def digits.simps digit_char_def Let_def)
  have p: "map_option joinCode (parse (str ''1234567890ABCDEF1234567890ABCDEF0000000aC6'') (Fin (- 70)) 0)
      = Some (str ''a'')"
    unfolding parse_joinCode using d by (simp add: substr_def str_def)
  have "map_option joinCode (parse (spec_joinCode_payload (str ''1234567890ABCDEF1234567890ABCDEF'')
      (str ''0a'') (str ''C6'')) (Fin (- 70)) 0) = Some (str ''a'')"
    unfolding spec_joinCode_payload_def e1 using p by (simp add: str_def)
  moreover have "map_option joinCode (parse (spec_joinCode_payload (str ''1234567890ABCDEF1234567890ABCDEF'')
      (str ''A'') (str ''C6'')) (Fin (- 70)) 0) = Some (str ''a'')"
    unfolding spec_joinCode_payload_def e2 using p by (simp add: str_def)
  moreover have "str ''a'' \<noteq> str ''0a''" "str ''a'' \<noteq> str ''A''" by (simp_all add: str_def)
  ultimately show ?thesis using no_payload_gives_zzzzzzz never_decoded by blast
qed

subsection \<open>Equality\<close>

text \<open>
  C7, at the input where the code departs from it. \<open>isEqual\<close> returns the boolean
  \<^verbatim>\<open>true\<close> exactly when the other record is present and has the same uuid, the same join
  code and a rounded distance that is \<^verbatim>\<open>===\<close> to this one's; proximity and lastSeen play
  no part. When the other record is absent the code does not throw, but what it returns
  is the absent value itself, \<^verbatim>\<open>null\<close> or \<^verbatim>\<open>undefined\<close>, and not the boolean \<^verbatim>\<open>false\<close>
  that the claim and the declared result type \<^verbatim>\<open>boolean\<close> ask for.
\<close>

theorem isEqual_absent_is_not_false:
  "isEqual this Null = VNull \<and> isEqual this Undefined = VUndefined
   \<and> isEqual this Null \<noteq> VBool False \<and> isEqual this Undefined \<noteq> VBool False
   \<and> (isEqual this b = VBool True \<longleftrightarrow>
        (\<exists>b'. b = Obj b' \<and> uuid b' = uuid this \<and> joinCode b' = joinCode this
           \<and> js_strict_eq (getRoundedDistance b') (getRoundedDistance this)))
   \<and> isEqual this (Obj (b'\<lparr>proximity := p, lastSeen := t\<rparr>)) = isEqual this (Obj b')
   \<and> isEqual (this\<lparr>proximity := p, lastSeen := t\<rparr>) b = isEqual this b"
  by (cases b) (simp_all add: getRoundedDistance_def)

subsection \<open>Rounded distance\<close>




subsection \<open>Monotonicity of the distance\<close>

text \<open>
  C9, as the code has it. Let the power field of the payload, the two characters at
  offset 40, be read by \<^verbatim>\<open>parseInt\<close> as the number \<open>p\<close>, so that the transmit power is
  \<open>p - 256\<close>, and let the signal strengths be integers that differ from the transmit
  power by at most 6000. Then a larger signal strength gives a strictly smaller distance,
  and for a fixed signal strength a payload with a strictly larger transmit power gives a
  strictly larger distance.
\<close>

theorem distance_monotone:
  assumes p: "parseInt (substr payload 40 2) 16 = PInt p"
  shows "(rssi1 < rssi2 \<and> \<bar>p - 256 - rssi1\<bar> \<le> 6000 \<and> \<bar>p - 256 - rssi2\<bar> \<le> 6000 \<longrightarrow>
           (\<exists>d1 d2. map_option distance (parse payload (Fin (of_int rssi1)) now1) = Some (Fin d1)
              \<and> map_option distance (parse payload (Fin (of_int rssi2)) now2) = Some (Fin d2)
              \<and> d2 < d1))
     \<and> (\<forall>payload' p'. parseInt (substr payload' 40 2) 16 = PInt p' \<and> p < p'
             \<and> \<bar>p - 256 - rssi\<bar> \<le> 6000 \<and> \<bar>p' - 256 - rssi\<bar> \<le> 6000 \<longrightarrow>
           (\<exists>d d'. map_option distance (parse payload (Fin (of_int rssi)) now1) = Some (Fin d)
              \<and> map_option distance (parse payload' (Fin (of_int rssi)) now2) = Some (Fin d')
              \<and> d < d'))"
proof (intro conjI impI allI)
  assume a: "rssi1 < rssi2 \<and> \<bar>p - 256 - rssi1\<bar> \<le> 6000 \<and> \<bar>p - 256 - rssi2\<bar> \<le> 6000"
  then have lt: "p - 256 - rssi2 < p - 256 - rssi1" by simp
  from a have b1: "\<bar>p - 256 - rssi1\<bar> \<le> 6000" and b2: "\<bar>p - 256 - rssi2\<bar> \<le> 6000" by simp_all
  show "\<exists>d1 d2. map_option distance (parse payload (Fin (of_int rssi1)) now1) = Some (Fin d1)
              \<and> map_option distance (parse payload (Fin (of_int rssi2)) now2) = Some (Fin d2)
              \<and> d2 < d1"
    unfolding distance_of_int [OF p b1] distance_of_int [OF p b2]
    using distance_strict [OF lt b2 b1] by auto
next
  fix payload' p'
  assume a: "parseInt (substr payload' 40 2) 16 = PInt p' \<and> p < p'
             \<and> \<bar>p - 256 - rssi\<bar> \<le> 6000 \<and> \<bar>p' - 256 - rssi\<bar> \<le> 6000"
  then have p': "parseInt (substr payload' 40 2) 16 = PInt p'"
    and lt: "p - 256 - rssi < p' - 256 - rssi"
    and b: "\<bar>p - 256 - rssi\<bar> \<le> 6000" and b': "\<bar>p' - 256 - rssi\<bar> \<le> 6000" by simp_all
  show "\<exists>d d'. map_option distance (parse payload (Fin (of_int rssi)) now1) = Some (Fin d)
              \<and> map_option distance (parse payload' (Fin (of_int rssi)) now2) = Some (Fin d')
              \<and> d < d'"
    unfolding distance_of_int [OF p b] distance_of_int [OF p' b']
    using distance_strict [OF lt b b'] by auto
qed

theorem distance_monotone_witness:
  "parseInt (substr example_payload 40 2) 16 = PInt 198
   \<and> (- 70 :: int) < - 60 \<and> \<bar>198 - 256 - (- 70) :: int\<bar> \<le> 6000 \<and> \<bar>198 - 256 - (- 60) :: int\<bar> \<le> 6000
   \<and> (\<exists>d1 d2. map_option distance (parse example_payload (Fin (- 70)) 0) = Some (Fin d1)
          \<and> map_option distance (parse example_payload (Fin (- 60)) 0) = Some (Fin d2)
          \<and> d2 < d1)
   \<and> parseInt (substr (take 40 example_payload @ str ''C7'') 40 2) 16 = PInt 199
   \<and> (198 :: int) < 199 \<and> \<bar>199 - 256 - (- 70) :: int\<bar> \<le> 6000
   \<and> (\<exists>d d'. map_option distance (parse example_payload (Fin (- 70)) 0) = Some (Fin d)
          \<and> map_option distance (parse (take 40 example_payload @ str ''C7'') (Fin (- 70)) 0)
               = Some (Fin d')
          \<and> d < d')"
proof -
  note m = distance_monotone [OF example_power(1), of "- 70" "- 60" 0 0 "- 70"]
  have a: "\<exists>d1 d2. map_option distance (parse example_payload (Fin (- 70)) 0) = Some (Fin d1)
          \<and> map_option distance (parse example_payload (Fin (- 60)) 0) = Some (Fin d2)
          \<and> d2 < d1"
    using m by simp
  have q: "parseInt (substr (take 40 example_payload @ str ''C7'') 40 2) 16 = PInt 199 \<and> (198::int) < 199
     \<and> \<bar>198 - 256 - (- 70) :: int\<bar> \<le> 6000 \<and> \<bar>199 - 256 - (- 70) :: int\<bar> \<le> 6000"
    using example_power(2) by simp
  from m q have b: "\<exists>d d'. map_option distance (parse example_payload (Fin (- 70)) 0) = Some (Fin d)
          \<and> map_option distance (parse (take 40 example_payload @ str ''C7'') (Fin (- 70)) 0)
               = Some (Fin d')
          \<and> d < d'"
    by (auto simp del: abs_minus_commute)
  from example_power(1,2) a b show ?thesis by simp
qed

text \<open>
  Without these bounds the distance is not strictly monotone, even for a fixed transmit
  power \<^verbatim>\<open>C6\<close>. The integer signal strengths 7000 and 8000 both give the distance 0, as
  the power underflows, and at the signal strength 7000 the larger transmit power \<^verbatim>\<open>C7\<close>
  gives 0 as well. The signal strengths \<open>1 / 2 ^ 70\<close> and \<open>1 / 2 ^ 69\<close> give one and the same
  distance, as the subtraction from the power absorbs them.
\<close>

theorem distance_monotone_counterexample:
  "parseInt (substr example_payload 40 2) 16 = PInt 198
   \<and> map_option distance (parse example_payload (Fin 7000) 0) = Some (Fin 0)
   \<and> map_option distance (parse example_payload (Fin 8000) 0) = Some (Fin 0)
   \<and> \<not> js_lt (Fin 0) (Fin 0)
   \<and> parseInt (substr (take 40 example_payload @ str ''C7'') 40 2) 16 = PInt 199
   \<and> map_option distance (parse (take 40 example_payload @ str ''C7'') (Fin 7000) 0) = Some (Fin 0)
   \<and> (\<exists>d. map_option distance (parse example_payload (Fin (1 / 2 ^ 70)) 0) = Some (Fin d)
         \<and> map_option distance (parse example_payload (Fin (1 / 2 ^ 69)) 0) = Some (Fin d)
         \<and> \<not> js_lt (Fin d) (Fin d))"
proof -
  have u: "map_option distance (parse example_payload (Fin (of_int r)) 0) = Some (Fin 0)"
    if "r = 7000 \<or> r = 8000" for r :: int
  proof -
    have "\<bar>198 - 256 - r\<bar> \<le> 10000" using that by auto
    have "js_sub (Fin (of_int (- 58))) (Fin (of_int r)) = Fin (of_int (- 58 - r))"
      using that by (intro js_sub_int) auto
    moreover have "Math_pow_10 (js_div_pos (Fin (of_int (- 58 - r))) (10 * 2)) = Fin 0"
      using that by (intro distance_underflow) auto
    ultimately show ?thesis
      unfolding parse_distance example_power_value by simp
  qed
  have p7: "js_sub (num (parseInt (substr (take 40 example_payload @ str ''C7'') 40 2) 16)) (Fin 256)
      = Fin (- 57)"
    unfolding example_power using js_sub_int [of 199 256] by simp
  have v: "map_option distance (parse (take 40 example_payload @ str ''C7'') (Fin 7000) 0) = Some (Fin 0)"
  proof -
    have "js_sub (Fin (of_int (- 57))) (Fin (of_int 7000)) = Fin (of_int (- 57 - 7000))"
      by (intro js_sub_int) simp
    moreover have "Math_pow_10 (js_div_pos (Fin (of_int (- 57 - 7000))) (10 * 2)) = Fin 0"
      by (intro distance_underflow) simp_all
    ultimately show ?thesis
      unfolding parse_distance p7 by simp
  qed
  obtain d where d: "Math_pow_10 (js_div_pos (Fin (of_int (- 58))) (10 * 2)) = Fin d"
    using distance_accuracy [of "- 58"] by auto
  have w: "map_option distance (parse example_payload (Fin (1 / 2 ^ 70)) 0) = Some (Fin d)"
    "map_option distance (parse example_payload (Fin (1 / 2 ^ 69)) 0) = Some (Fin d)"
    unfolding parse_distance example_power_value absorb_70 absorb_69 using d by simp_all
  have u7: "map_option distance (parse example_payload (Fin 7000) 0) = Some (Fin 0)"
    using u [of 7000] by simp
  have u8: "map_option distance (parse example_payload (Fin 8000) 0) = Some (Fin 0)"
    using u [of 8000] by simp
  have x: "\<exists>d. map_option distance (parse example_payload (Fin (1 / 2 ^ 70)) 0) = Some (Fin d)
         \<and> map_option distance (parse example_payload (Fin (1 / 2 ^ 69)) 0) = Some (Fin d)
         \<and> \<not> js_lt (Fin d) (Fin d)"
  proof (intro exI conjI)
    show "\<not> js_lt (Fin d) (Fin d)" by simp
  qed (rule w)+
  have n: "\<not> js_lt (Fin 0) (Fin 0)" by simp
  from u7 u8 v x n example_power(1,2) show ?thesis by blast
qed

subsection \<open>Totality of parse\<close>

text \<open>
  C10. For every input string and every rssi, \<open>parse\<close> returns a record and never
  \<^verbatim>\<open>null\<close>. On the empty string the record is built from empty substrings and
  \<open>NaN\<close>: the uuid is the four dashes alone, the join code is the text \<^verbatim>\<open>NaN\<close>, the
  distance is \<open>NaN\<close> and, since both comparisons with \<open>NaN\<close> are false, the proximity
  is \<^verbatim>\<open>far\<close>. A short text that is not hexadecimal gives a record in the same way.
\<close>

theorem parse_total:
  "(\<exists>b. parse dataString rssi now = Some b)
   \<and> parse [] rssi now =
       Some \<lparr>distance = NaN, joinCode = str ''NaN'', lastSeen = now,
             proximity = PROXIMITY_FAR, uuid = str ''----''\<rparr>
   \<and> parse (str ''hello, world'') rssi now =
       Some \<lparr>distance = NaN, joinCode = str ''NaN'', lastSeen = now,
             proximity = PROXIMITY_FAR, uuid = str ''hello, w-orld---''\<rparr>"
proof (intro conjI)
  show "\<exists>b. parse dataString rssi now = Some b"
    by (simp add: parse_def Let_def)
  show "parse [] rssi now =
       Some \<lparr>distance = NaN, joinCode = str ''NaN'', lastSeen = now,
             proximity = PROXIMITY_FAR, uuid = str ''----''\<rparr>"
    by (simp add: parse_def Let_def new_Beacon_def substr_empty parseInt_empty
        js_sub_NaN_right str_def)
  have s: "substr (str ''hello, world'') 32 4 = []" "substr (str ''hello, world'') 36 4 = []"
    "substr (str ''hello, world'') 40 2 = []"
    by (simp_all add: substr_def str_def)
  show "parse (str ''hello, world'') rssi now =
       Some \<lparr>distance = NaN, joinCode = str ''NaN'', lastSeen = now,
             proximity = PROXIMITY_FAR, uuid = str ''hello, w-orld---''\<rparr>"
    unfolding parse_def Let_def s
    by (simp add: new_Beacon_def parseInt_empty js_sub_NaN_right) (simp add: substr_def str_def)
qed

end
